theory Spec2Isabelle
  imports Main
begin

section \<open>Platform values: strings, BigInt, thrown errors\<close>

text \<open>
  A JavaScript string is modelled by the bytes of its UTF-8 encoding (\<open>string\<close>, a list of
  8-bit characters). A \<open>bigint\<close> is an \<open>int\<close>. A \<open>number\<close> that the code uses as a count, an
  HTTP status or a timestamp is a \<open>nat\<close> or an \<open>int\<close>.

  \<open>BigInt(s)\<close> follows the StringToBigInt grammar of the language: white space is trimmed,
  the empty string is \<open>0n\<close>, a decimal literal may carry a sign, and the prefixes \<open>0x\<close>,
  \<open>0o\<close>, \<open>0b\<close> select another radix (without sign). Everything else raises a SyntaxError,
  which is the value \<open>None\<close> here. The white space that is trimmed is that of the language
  (StrWhiteSpaceChar): the ASCII characters TAB, LF, VT, FF, CR and space, and U+00A0,
  U+1680, U+2000 to U+200A, U+2028, U+2029, U+202F, U+205F, U+3000 and U+FEFF, which are
  two or three bytes each in UTF-8.
\<close>

definition digit_val :: "char \<Rightarrow> nat option" where
  "digit_val c =
     (let n = (of_char c :: nat) in
      if 48 \<le> n \<and> n \<le> 57 then Some (n - 48)
      else if 97 \<le> n \<and> n \<le> 102 then Some (n - 87)
      else if 65 \<le> n \<and> n \<le> 70 then Some (n - 55)
      else None)"

fun digits_value :: "nat \<Rightarrow> string \<Rightarrow> nat \<Rightarrow> nat option" where
  "digits_value r [] acc = Some acc"
| "digits_value r (c # cs) acc =
     (case digit_val c of
        None \<Rightarrow> None
      | Some d \<Rightarrow> if d < r then digits_value r cs (acc * r + d) else None)"

definition parse_digits :: "nat \<Rightarrow> string \<Rightarrow> nat option" where
  "parse_digits r s = (if s = [] then None else digits_value r s 0)"

definition is_digit :: "char \<Rightarrow> bool" where
  "is_digit c = (48 \<le> (of_char c :: nat) \<and> (of_char c :: nat) \<le> 57)"

definition is_white_space :: "char \<Rightarrow> bool" where
  "is_white_space c = ((of_char c :: nat) \<in> {9, 10, 11, 12, 13, 32})"

text \<open>The white space of two bytes (U+00A0) and of three bytes, by the bytes in their order.\<close>

definition is_white_space2 :: "char \<Rightarrow> char \<Rightarrow> bool" where
  "is_white_space2 a b = ((of_char a :: nat) = 0xC2 \<and> (of_char b :: nat) = 0xA0)"

definition is_white_space3 :: "char \<Rightarrow> char \<Rightarrow> char \<Rightarrow> bool" where
  "is_white_space3 a b c =
     (let x = (of_char a :: nat); y = (of_char b :: nat); z = (of_char c :: nat)
      in x = 0xE1 \<and> y = 0x9A \<and> z = 0x80
         \<or> x = 0xE2 \<and> y = 0x80 \<and> (0x80 \<le> z \<and> z \<le> 0x8A \<or> z = 0xA8 \<or> z = 0xA9 \<or> z = 0xAF)
         \<or> x = 0xE2 \<and> y = 0x81 \<and> z = 0x9F
         \<or> x = 0xE3 \<and> y = 0x80 \<and> z = 0x80
         \<or> x = 0xEF \<and> y = 0xBB \<and> z = 0xBF)"

text \<open>
  Dropping the white space at the front of a string, given what is white space in one,
  two and three bytes.
\<close>

fun strip ::
  "(char \<Rightarrow> bool) \<Rightarrow> (char \<Rightarrow> char \<Rightarrow> bool) \<Rightarrow> (char \<Rightarrow> char \<Rightarrow> char \<Rightarrow> bool) \<Rightarrow> string \<Rightarrow> string" where
  "strip w1 w2 w3 (a # b # c # s) =
     (if w1 a then strip w1 w2 w3 (b # c # s)
      else if w2 a b then strip w1 w2 w3 (c # s)
      else if w3 a b c then strip w1 w2 w3 s
      else a # b # c # s)"
| "strip w1 w2 w3 [a, b] =
     (if w1 a then strip w1 w2 w3 [b] else if w2 a b then [] else [a, b])"
| "strip w1 w2 w3 [a] = (if w1 a then [] else [a])"
| "strip w1 w2 w3 [] = []"

text \<open>\<open>trim\<close>: the front, and then the end read backwards.\<close>

definition trim :: "string \<Rightarrow> string" where
  "trim s =
     rev (strip is_white_space (\<lambda>b a. is_white_space2 a b) (\<lambda>c b a. is_white_space3 a b c)
            (rev (strip is_white_space is_white_space2 is_white_space3 s)))"

definition is_sign_or_digit :: "char \<Rightarrow> bool" where
  "is_sign_or_digit c = (is_digit c \<or> c = CHR ''-'')"

definition BigInt :: "string \<Rightarrow> int option" where
  "BigInt s =
     (case trim s of
        [] \<Rightarrow> Some 0
      | c # cs \<Rightarrow>
          if c = CHR ''-'' then map_option (\<lambda>n. - int n) (parse_digits 10 cs)
          else if c = CHR ''+'' then map_option int (parse_digits 10 cs)
          else if c = CHR ''0'' \<and> cs \<noteq> [] \<and> hd cs \<in> {CHR ''x'', CHR ''X''}
            then map_option int (parse_digits 16 (tl cs))
          else if c = CHR ''0'' \<and> cs \<noteq> [] \<and> hd cs \<in> {CHR ''o'', CHR ''O''}
            then map_option int (parse_digits 8 (tl cs))
          else if c = CHR ''0'' \<and> cs \<noteq> [] \<and> hd cs \<in> {CHR ''b'', CHR ''B''}
            then map_option int (parse_digits 2 (tl cs))
          else map_option int (parse_digits 10 (c # cs)))"

text \<open>\<open>n.toString()\<close> of a bigint and of an integral number: decimal digits, \<open>-\<close> for a negative value.\<close>

fun nat_toString :: "nat \<Rightarrow> string" where
  "nat_toString n =
     (if n < 10 then [char_of (48 + n)]
      else nat_toString (n div 10) @ [char_of (48 + n mod 10)])"

declare nat_toString.simps [simp del]

definition toString :: "int \<Rightarrow> string" where
  "toString i = (if i < 0 then CHR ''-'' # nat_toString (nat (- i)) else nat_toString (nat i))"

section \<open>BudgetManager (client-sdk, budget.ts)\<close>

record BudgetTransaction =
  bt_toolName :: string
  bt_serverUrl :: string
  bt_amount :: string
  bt_txHash :: string
  bt_timestamp :: int

text \<open>The argument of \<open>recordSpending\<close>: a transaction without its timestamp.\<close>

record SpendingEntry =
  se_toolName :: string
  se_serverUrl :: string
  se_amount :: string
  se_txHash :: string

record BudgetManager =
  total :: int
  spent :: int
  transactions :: "BudgetTransaction list"

record BudgetState =
  bs_total :: string
  bs_spent :: string
  bs_remaining :: string
  bs_transactions :: "BudgetTransaction list"

text \<open>The constructor; \<open>None\<close> when \<open>BigInt(totalBudget)\<close> raises.\<close>

definition createBudgetManager :: "string \<Rightarrow> BudgetManager option" where
  "createBudgetManager totalBudget =
     map_option (\<lambda>t. \<lparr>total = t, spent = 0, transactions = []\<rparr>) (BigInt totalBudget)"

definition canSpend :: "BudgetManager \<Rightarrow> string \<Rightarrow> bool option" where
  "canSpend b amount = map_option (\<lambda>a. spent b + a \<le> total b) (BigInt amount)"

text \<open>
  \<open>recordSpending\<close> stamps the entry with the clock (\<open>now\<close>, the value of \<open>Date.now()\<close>),
  pushes it, and then adds \<open>BigInt(amount)\<close> to \<open>spent\<close>. The result is the manager after the
  call and whether the call returned (\<open>True\<close>) or raised the SyntaxError of \<open>BigInt\<close>
  (\<open>False\<close>); in the second case the push has already happened.
\<close>

definition recordSpending :: "int \<Rightarrow> SpendingEntry \<Rightarrow> BudgetManager \<Rightarrow> bool \<times> BudgetManager" where
  "recordSpending now e b =
     (let tx = \<lparr>bt_toolName = se_toolName e, bt_serverUrl = se_serverUrl e,
                bt_amount = se_amount e, bt_txHash = se_txHash e, bt_timestamp = now\<rparr>;
          b1 = b\<lparr>transactions := transactions b @ [tx]\<rparr>
      in case BigInt (se_amount e) of
           None \<Rightarrow> (False, b1)
         | Some a \<Rightarrow> (True, b1\<lparr>spent := spent b1 + a\<rparr>))"

definition getState :: "BudgetManager \<Rightarrow> BudgetState" where
  "getState b =
     \<lparr>bs_total = toString (total b), bs_spent = toString (spent b),
      bs_remaining = toString (total b - spent b), bs_transactions = transactions b\<rparr>"

definition getRemaining :: "BudgetManager \<Rightarrow> int" where
  "getRemaining b = total b - spent b"

definition getSpent :: "BudgetManager \<Rightarrow> int" where
  "getSpent b = spent b"

definition reset :: "BudgetManager \<Rightarrow> BudgetManager" where
  "reset b = b\<lparr>spent := 0, transactions := []\<rparr>"

definition setTotal :: "string \<Rightarrow> BudgetManager \<Rightarrow> BudgetManager option" where
  "setTotal newTotal b = map_option (\<lambda>t. b\<lparr>total := t\<rparr>) (BigInt newTotal)"

text \<open>
  A sequence of \<open>recordSpending\<close> calls, each with the clock value of its moment. A call
  that raises leaves the manager as the exception found it, and the caller goes on.
\<close>

fun recordAll :: "(int \<times> SpendingEntry) list \<Rightarrow> BudgetManager \<Rightarrow> BudgetManager" where
  "recordAll [] b = b"
| "recordAll ((now, e) # es) b = recordAll es (snd (recordSpending now e b))"

section \<open>Thrown values\<close>

text \<open>
  What a \<open>throw\<close> or a rejected promise carries: an \<open>Error\<close> object (of any subclass)
  with its message, or the value \<open>undefined\<close>. A function that can throw returns
  \<open>js_error + 'a\<close>, \<open>Inl\<close> being the throw.
\<close>

datatype js_error = Error string | Undefined

text \<open>\<open>x || d\<close> for an optional string: \<open>undefined\<close>, \<open>null\<close> and the empty string are falsy.\<close>

definition or_default :: "string option \<Rightarrow> string \<Rightarrow> string" where
  "or_default x d = (case x of None \<Rightarrow> d | Some s \<Rightarrow> if s = [] then d else s)"

text \<open>\<open>error instanceof Error ? error : new Error(String(error))\<close>\<close>

definition to_Error :: "js_error \<Rightarrow> js_error" where
  "to_Error e = (case e of Error m \<Rightarrow> Error m | Undefined \<Rightarrow> Error ''undefined'')"

section \<open>Constants (core, constants/index.ts)\<close>

datatype network = testnet | mainnet

record NetworkConfig =
  nc_name :: string
  nc_chainId :: nat
  nc_networkId :: string
  nc_rpcUrl :: string
  nc_explorerUrl :: string
  nc_usdcAddress :: string
  nc_usdcDecimals :: nat

definition EIP712_DOMAIN_NAME :: string where
  "EIP712_DOMAIN_NAME = ''Bridged USDC (Stargate)''"

definition EIP712_DOMAIN_VERSION :: string where
  "EIP712_DOMAIN_VERSION = ''1''"

definition CRONOS_NETWORKS_TESTNET :: NetworkConfig where
  "CRONOS_NETWORKS_TESTNET =
     \<lparr>nc_name = ''Cronos Testnet'', nc_chainId = 338, nc_networkId = ''cronos-testnet'',
      nc_rpcUrl = ''https://evm-t3.cronos.org'',
      nc_explorerUrl = ''https://explorer.cronos.org/testnet'',
      nc_usdcAddress = ''0xc01efAaF7C5C61bEbFAeb358E1161b537b8bC0e0'', nc_usdcDecimals = 6\<rparr>"

definition CRONOS_NETWORKS_MAINNET :: NetworkConfig where
  "CRONOS_NETWORKS_MAINNET =
     \<lparr>nc_name = ''Cronos Mainnet'', nc_chainId = 25, nc_networkId = ''cronos-mainnet'',
      nc_rpcUrl = ''https://evm.cronos.org'',
      nc_explorerUrl = ''https://explorer.cronos.org'',
      nc_usdcAddress = ''0xf951eC28187D9E5Ca673Da8FE6757E6f0Be5F77C'', nc_usdcDecimals = 6\<rparr>"

definition getNetworkConfig :: "network \<Rightarrow> NetworkConfig" where
  "getNetworkConfig n = (if n = mainnet then CRONOS_NETWORKS_MAINNET else CRONOS_NETWORKS_TESTNET)"

definition FACILITATOR_URL :: string where
  "FACILITATOR_URL = ''https://facilitator.cronoslabs.org/v2/x402''"

definition FACILITATOR_ENDPOINTS_VERIFY :: string where
  "FACILITATOR_ENDPOINTS_VERIFY = ''/verify''"

definition FACILITATOR_ENDPOINTS_SETTLE :: string where
  "FACILITATOR_ENDPOINTS_SETTLE = ''/settle''"

definition X402_VERSION :: int where
  "X402_VERSION = 1"

definition PAYMENT_SCHEMES_EXACT :: string where
  "PAYMENT_SCHEMES_EXACT = ''exact''"

definition TIMEOUTS_PAYMENT_VALIDITY :: int where
  "TIMEOUTS_PAYMENT_VALIDITY = 300"

definition TIMEOUTS_VERIFY :: nat where
  "TIMEOUTS_VERIFY = 30"

section \<open>Types (core, types/index.ts)\<close>

text \<open>
  \<open>outputSchema\<close> and \<open>extra\<close> of the requirements and \<open>inputSchema\<close> of a tool are never
  read or written by the code modelled here and are left out.
\<close>

record PaymentRequirements =
  pr_scheme :: string
  pr_network :: string
  pr_maxAmountRequired :: string
  pr_resource :: string
  pr_description :: "string option"
  pr_mimeType :: string
  pr_payTo :: string
  pr_maxTimeoutSeconds :: int
  pr_asset :: string

record PricedTool =
  tool_name :: string
  tool_description :: string
  tool_price :: string

text \<open>
  \<open>RegisteredTool extends PricedTool\<close> (server-sdk, tools.ts). The handler gets the request
  body and returns a result or throws.
\<close>

record ('p, 'r) RegisteredTool = PricedTool +
  handler :: "'p \<Rightarrow> js_error + 'r"

datatype payment_status = pending | settled | failed

record PaymentRecord =
  rec_id :: string
  rec_toolName :: string
  rec_amount :: string
  rec_payer :: string
  rec_txHash :: string
  rec_timestamp :: int
  rec_status :: payment_status

section \<open>The facilitator client (payment, facilitator.ts)\<close>

record VerifyResponse =
  isValid :: bool
  invalidReason :: "string option"
  payer :: "string option"

text \<open>The parsed body of a settle answer (\<open>data\<close> in the source), every field optional.\<close>

record SettleData =
  sd_event :: "string option"
  sd_txHash :: "string option"
  sd_from :: "string option"
  sd_to :: "string option"
  sd_value :: "string option"
  sd_blockNumber :: "nat option"
  sd_network :: "string option"
  sd_timestamp :: "string option"
  sd_error :: "string option"

record SettleResponse =
  success :: bool
  sr_event :: "string option"
  sr_txHash :: "string option"
  sr_transaction :: "string option"
  sr_from :: "string option"
  sr_to :: "string option"
  sr_value :: "string option"
  sr_blockNumber :: "nat option"
  sr_network :: "string option"
  sr_timestamp :: "string option"
  sr_error :: "string option"
  sr_errorReason :: "string option"

text \<open>The POST the client sends: the URL and the three fields of the JSON body.\<close>

record FacilitatorRequest =
  rq_url :: string
  rq_x402Version :: nat
  rq_paymentHeader :: string
  rq_paymentRequirements :: PaymentRequirements

record HttpResponse =
  resp_ok :: bool
  resp_status :: nat
  resp_text :: string

text \<open>
  Everything the code does to the outside is an event of a trace, oldest first: a
  \<open>fetch\<close> to the facilitator, a \<open>setTimeout\<close> wait of so many milliseconds, an invocation of
  a tool's handler (by the tool's name).
\<close>

datatype event = Fetch FacilitatorRequest | Sleep nat | Invoke string

type_synonym world = "event list"

text \<open>
  The outside answers through an environment, each answer a function of the trace so
  far: \<open>fetch\<close> gives a response with its text read, or rejects (network failure, abort by
  the timeout signal, failure to read the body); \<open>JSON.parse\<close> of a response text, seen at
  the type the source casts it to, or the error raised (by \<open>JSON.parse\<close>, or for a settle
  answer by reading a property of \<open>null\<close>); \<open>crypto.randomUUID()\<close>; \<open>Date.now()\<close>. A verify
  answer may be the JSON value \<open>null\<close> (\<open>None\<close>): \<open>verify\<close> returns it as it is, and the caller
  that reads its \<open>isValid\<close> raises a TypeError.
\<close>

record env =
  fetch :: "world \<Rightarrow> FacilitatorRequest \<Rightarrow> js_error + HttpResponse"
  JSON_parse_verify :: "string \<Rightarrow> js_error + VerifyResponse option"
  JSON_parse_settle :: "string \<Rightarrow> js_error + SettleData"
  randomUUID :: "world \<Rightarrow> string"
  Date_now :: "world \<Rightarrow> int"

text \<open>
  The retry helper of facilitator.ts. \<open>fn\<close> is one attempt, run on the trace; the loop
  counter \<open>i\<close> and \<open>lastError\<close> (\<open>None\<close> while it is \<open>undefined\<close>) are the loop's variables.
  \<open>retries\<close> is a count, a natural number.
\<close>

function retry_from ::
  "(world \<Rightarrow> (js_error + 'a) \<times> world) \<Rightarrow> nat \<Rightarrow> nat \<Rightarrow> nat \<Rightarrow> js_error option \<Rightarrow> world
     \<Rightarrow> (js_error + 'a) \<times> world" where
  "retry_from fn retries delay i lastError w =
     (if i < retries then
        (case fn w of
           (Inr v, w') \<Rightarrow> (Inr v, w')
         | (Inl error, w') \<Rightarrow>
             retry_from fn retries delay (i + 1) (Some (to_Error error))
               (if int i < int retries - 1 then w' @ [Sleep (delay * (i + 1))] else w'))
      else (Inl (case lastError of None \<Rightarrow> Undefined | Some e \<Rightarrow> e), w))"
  by pat_completeness auto
termination
  by (relation "measure (\<lambda>(fn, retries, delay, i, lastError, w). retries - i)") auto

declare retry_from.simps [simp del]

definition retry ::
  "(world \<Rightarrow> (js_error + 'a) \<times> world) \<Rightarrow> nat \<Rightarrow> world \<Rightarrow> (js_error + 'a) \<times> world" where
  "retry fn retries w = retry_from fn retries 1000 0 None w"

record FacilitatorClient =
  baseUrl :: string
  timeout :: nat
  retries :: nat

text \<open>\<open>baseUrl.replace(/\/$/, '')\<close>: one trailing slash is removed.\<close>

definition strip_trailing_slash :: "string \<Rightarrow> string" where
  "strip_trailing_slash s = (if s \<noteq> [] \<and> last s = CHR ''/'' then butlast s else s)"

definition new_FacilitatorClient :: "string option \<Rightarrow> nat option \<Rightarrow> nat option \<Rightarrow> FacilitatorClient" where
  "new_FacilitatorClient url opt_timeout opt_retries =
     \<lparr>baseUrl = strip_trailing_slash (case url of None \<Rightarrow> FACILITATOR_URL | Some u \<Rightarrow> u),
      timeout = (case opt_timeout of None \<Rightarrow> TIMEOUTS_VERIFY * 1000 | Some t \<Rightarrow> t),
      retries = (case opt_retries of None \<Rightarrow> 3 | Some r \<Rightarrow> r)\<rparr>"

definition verify_request :: "FacilitatorClient \<Rightarrow> string \<Rightarrow> PaymentRequirements \<Rightarrow> FacilitatorRequest" where
  "verify_request c paymentHeader paymentRequirements =
     \<lparr>rq_url = baseUrl c @ FACILITATOR_ENDPOINTS_VERIFY, rq_x402Version = 1,
      rq_paymentHeader = paymentHeader, rq_paymentRequirements = paymentRequirements\<rparr>"

definition settle_request :: "FacilitatorClient \<Rightarrow> string \<Rightarrow> PaymentRequirements \<Rightarrow> FacilitatorRequest" where
  "settle_request c paymentHeader paymentRequirements =
     \<lparr>rq_url = baseUrl c @ FACILITATOR_ENDPOINTS_SETTLE, rq_x402Version = 1,
      rq_paymentHeader = paymentHeader, rq_paymentRequirements = paymentRequirements\<rparr>"

text \<open>One attempt of \<open>verify\<close>: the body of the function handed to \<open>retry\<close>.\<close>

definition verify_attempt ::
  "env \<Rightarrow> FacilitatorRequest \<Rightarrow> world \<Rightarrow> (js_error + VerifyResponse option) \<times> world" where
  "verify_attempt E request w =
     (case fetch E w request of
        Inl e \<Rightarrow> (Inl e, w @ [Fetch request])
      | Inr response \<Rightarrow>
          if \<not> resp_ok response
          then (Inl (Error (''Verify failed: '' @ nat_toString (resp_status response) @ '' - ''
                              @ resp_text response)), w @ [Fetch request])
          else (JSON_parse_verify E (resp_text response), w @ [Fetch request]))"

definition verify ::
  "env \<Rightarrow> FacilitatorClient \<Rightarrow> string \<Rightarrow> PaymentRequirements \<Rightarrow> world
     \<Rightarrow> (js_error + VerifyResponse option) \<times> world" where
  "verify E c paymentHeader paymentRequirements w =
     retry (verify_attempt E (verify_request c paymentHeader paymentRequirements)) (retries c) w"

text \<open>The mapping of the facilitator's settle answer to \<open>SettleResponse\<close>.\<close>

definition map_settle :: "SettleData \<Rightarrow> SettleResponse" where
  "map_settle d =
     \<lparr>success = (sd_event d = Some ''payment.settled''),
      sr_event = sd_event d, sr_txHash = sd_txHash d, sr_transaction = sd_txHash d,
      sr_from = sd_from d, sr_to = sd_to d, sr_value = sd_value d,
      sr_blockNumber = sd_blockNumber d, sr_network = sd_network d,
      sr_timestamp = sd_timestamp d, sr_error = sd_error d, sr_errorReason = sd_error d\<rparr>"

definition settle_attempt ::
  "env \<Rightarrow> FacilitatorRequest \<Rightarrow> world \<Rightarrow> (js_error + SettleResponse) \<times> world" where
  "settle_attempt E request w =
     (case fetch E w request of
        Inl e \<Rightarrow> (Inl e, w @ [Fetch request])
      | Inr response \<Rightarrow>
          if \<not> resp_ok response
          then (Inl (Error (''Settle failed: '' @ nat_toString (resp_status response) @ '' - ''
                              @ resp_text response)), w @ [Fetch request])
          else (case JSON_parse_settle E (resp_text response) of
                  Inl e \<Rightarrow> (Inl e, w @ [Fetch request])
                | Inr d \<Rightarrow> (Inr (map_settle d), w @ [Fetch request])))"

definition settle ::
  "env \<Rightarrow> FacilitatorClient \<Rightarrow> string \<Rightarrow> PaymentRequirements \<Rightarrow> world
     \<Rightarrow> (js_error + SettleResponse) \<times> world" where
  "settle E c paymentHeader paymentRequirements w =
     retry (settle_attempt E (settle_request c paymentHeader paymentRequirements)) (retries c) w"

section \<open>The payment handler (payment, handler.ts)\<close>

text \<open>
  A JavaScript \<open>Map\<close> is an association list in insertion order; \<open>set\<close> on a key that is
  present replaces its value in place.
\<close>

fun map_set :: "'k \<Rightarrow> 'v \<Rightarrow> ('k \<times> 'v) list \<Rightarrow> ('k \<times> 'v) list" where
  "map_set k v [] = [(k, v)]"
| "map_set k v ((k', v') # m) = (if k' = k then (k, v) # m else (k', v') # map_set k v m)"

record PaymentHandlerConfig =
  cfg_paymentAddress :: string
  cfg_network :: network
  cfg_facilitatorUrl :: "string option"

record PaymentHandler =
  facilitator :: FacilitatorClient
  paymentAddress :: string
  ph_network :: network
  payments :: "(string \<times> PaymentRecord) list"

definition createPaymentHandler :: "PaymentHandlerConfig \<Rightarrow> PaymentHandler" where
  "createPaymentHandler config =
     \<lparr>facilitator =
        new_FacilitatorClient
          (Some (case cfg_facilitatorUrl config of None \<Rightarrow> ''https://facilitator.cronoslabs.org/v2/x402''
                 | Some u \<Rightarrow> u)) None None,
      paymentAddress = cfg_paymentAddress config,
      ph_network = cfg_network config,
      payments = []\<rparr>"

definition createPaymentRequirements ::
  "PaymentHandler \<Rightarrow> 'a PricedTool_scheme \<Rightarrow> string \<Rightarrow> PaymentRequirements" where
  "createPaymentRequirements h tool resource =
     (let networkConfig =
            (if ph_network h = mainnet then CRONOS_NETWORKS_MAINNET else CRONOS_NETWORKS_TESTNET)
      in \<lparr>pr_scheme = ''exact'',
          pr_network = nc_networkId networkConfig,
          pr_maxAmountRequired = tool_price tool,
          pr_resource = resource,
          pr_description = Some (tool_description tool),
          pr_mimeType = ''application/json'',
          pr_payTo = paymentAddress h,
          pr_maxTimeoutSeconds = 300,
          pr_asset = nc_usdcAddress networkConfig\<rparr>)"

record PaymentRequiredBody =
  prb_error :: string
  prb_paymentRequirements :: PaymentRequirements
  prb_accepts :: "PaymentRequirements list"

record PaymentRequired =
  pq_status :: nat
  pq_body :: PaymentRequiredBody

definition create402Response :: "PaymentHandler \<Rightarrow> 'a PricedTool_scheme \<Rightarrow> string \<Rightarrow> PaymentRequired" where
  "create402Response h tool resource =
     (let requirements = createPaymentRequirements h tool resource
      in \<lparr>pq_status = 402,
          pq_body = \<lparr>prb_error = ''Payment Required'',
                     prb_paymentRequirements = requirements,
                     prb_accepts = [requirements]\<rparr>\<rparr>)"

text \<open>The TypeError that reading \<open>isValid\<close> of \<open>null\<close> raises, with the message that V8 gives it.\<close>

definition TypeError_isValid_of_null :: js_error where
  "TypeError_isValid_of_null =
     Error (''Cannot read properties of null (reading '' @ [CHR 0x27] @ ''isValid'' @ [CHR 0x27] @ '')'')"

text \<open>
  \<open>processPayment\<close>: verify, then settle, then the record. The state is the handler (its
  \<open>payments\<close> map) and the trace.
\<close>

definition processPayment ::
  "env \<Rightarrow> string \<Rightarrow> 'a PricedTool_scheme \<Rightarrow> string \<Rightarrow> PaymentHandler \<times> world
     \<Rightarrow> (js_error + PaymentRecord) \<times> (PaymentHandler \<times> world)" where
  "processPayment E paymentHeader tool resource s =
     (let h = fst s;
          paymentRequirements = createPaymentRequirements h tool resource;
          (verifyResult, w1) = verify E (facilitator h) paymentHeader paymentRequirements (snd s)
      in case verifyResult of
           Inl e \<Rightarrow> (Inl e, (h, w1))
         | Inr None \<Rightarrow> (Inl TypeError_isValid_of_null, (h, w1))
         | Inr (Some v) \<Rightarrow>
             if \<not> isValid v
             then (Inl (Error (''Payment invalid: '' @ or_default (invalidReason v) ''unknown'')), (h, w1))
             else
               (let (settleResult, w2) = settle E (facilitator h) paymentHeader paymentRequirements w1
                in case settleResult of
                     Inl e \<Rightarrow> (Inl e, (h, w2))
                   | Inr r \<Rightarrow>
                       if \<not> success r
                       then (Inl (Error (''Settlement failed: '' @ or_default (sr_errorReason r) ''unknown'')),
                             (h, w2))
                       else
                         (let record = \<lparr>rec_id = randomUUID E w2,
                                         rec_toolName = tool_name tool,
                                         rec_amount = tool_price tool,
                                         rec_payer = or_default (payer v) ''unknown'',
                                         rec_txHash = or_default (sr_transaction r) [],
                                         rec_timestamp = Date_now E w2,
                                         rec_status = settled\<rparr>
                          in (Inr record,
                              (h\<lparr>payments := map_set (rec_id record) record (payments h)\<rparr>, w2)))))"

definition getPayments :: "PaymentHandler \<Rightarrow> PaymentRecord list" where
  "getPayments h = map snd (payments h)"

text \<open>\<open>getTotalRevenue\<close>; \<open>None\<close> when \<open>BigInt\<close> raises on a recorded amount.\<close>

fun sum_amounts :: "int \<Rightarrow> PaymentRecord list \<Rightarrow> int option" where
  "sum_amounts acc [] = Some acc"
| "sum_amounts acc (p # ps) =
     (case BigInt (rec_amount p) of None \<Rightarrow> None | Some a \<Rightarrow> sum_amounts (acc + a) ps)"

definition getTotalRevenue :: "PaymentHandler \<Rightarrow> int option" where
  "getTotalRevenue h = sum_amounts 0 (map snd (payments h))"

section \<open>The middleware and the tool route (server-sdk, middleware.ts and server.ts)\<close>

record MiddlewareResult =
  proceed :: bool
  mr_paymentRequired :: "PaymentRequired option"
  mr_payment :: "PaymentRecord option"
  mr_error :: "string option"

text \<open>
  \<open>X402Middleware.process\<close>. \<open>paymentHeader\<close> is \<open>None\<close> when the request has no such header.
  The outcome is \<open>None\<close> when \<open>BigInt(tool.price)\<close> raises, which nothing here catches.
\<close>

definition process ::
  "env \<Rightarrow> 'a PricedTool_scheme \<Rightarrow> string option \<Rightarrow> PaymentHandler \<times> world
     \<Rightarrow> MiddlewareResult option \<times> (PaymentHandler \<times> world)" where
  "process E tool paymentHeader s =
     (case BigInt (tool_price tool) of
        None \<Rightarrow> (None, s)
      | Some price \<Rightarrow>
          if price = 0
          then (Some \<lparr>proceed = True, mr_paymentRequired = None, mr_payment = None, mr_error = None\<rparr>, s)
          else if paymentHeader = None \<or> paymentHeader = Some []
          then (Some \<lparr>proceed = False,
                      mr_paymentRequired =
                        Some (create402Response (fst s) tool (''tool://'' @ tool_name tool)),
                      mr_payment = None, mr_error = None\<rparr>, s)
          else
            (case processPayment E (the paymentHeader) tool (''tool://'' @ tool_name tool) s of
               (Inr payment, s') \<Rightarrow>
                 (Some \<lparr>proceed = True, mr_paymentRequired = None,
                        mr_payment = Some payment, mr_error = None\<rparr>, s')
             | (Inl error, s') \<Rightarrow>
                 (Some \<lparr>proceed = False, mr_paymentRequired = None, mr_payment = None,
                        mr_error = Some (case error of Error m \<Rightarrow> m | Undefined \<Rightarrow> ''Payment failed'')\<rparr>,
                  s')))"

record 'p RequestContext =
  ctx_headers :: "string \<rightharpoonup> string"
  ctx_body :: 'p

datatype 'r response_body =
    ChallengeBody PaymentRequiredBody
  | ErrorBody string
  | ResultBody 'r "PaymentRecord option"

record 'r ResponseContext =
  status :: nat
  body :: "'r response_body"

record MCPServer =
  paymentHandler :: PaymentHandler
  toolCalls :: "(string \<times> nat) list"

definition incrementToolCalls :: "string \<Rightarrow> MCPServer \<Rightarrow> MCPServer" where
  "incrementToolCalls toolName srv =
     (let current = (case map_of (toolCalls srv) toolName of None \<Rightarrow> 0 | Some n \<Rightarrow> n)
      in srv\<lparr>toolCalls := map_set toolName (current + 1) (toolCalls srv)\<rparr>)"

text \<open>
  The handler that \<open>setupToolRoutes\<close> registers for one tool. The outcome is \<open>None\<close> when
  the middleware raised (the transport then answers 500).
\<close>

definition toolRoute ::
  "env \<Rightarrow> ('p, 'r) RegisteredTool \<Rightarrow> 'p RequestContext \<Rightarrow> MCPServer \<times> world
     \<Rightarrow> 'r ResponseContext option \<times> (MCPServer \<times> world)" where
  "toolRoute E tool ctx s =
     (let srv = fst s;
          paymentHeader = ctx_headers ctx ''x-payment'';
          (result, (h, w)) = process E tool paymentHeader (paymentHandler srv, snd s);
          srv1 = srv\<lparr>paymentHandler := h\<rparr>
      in case result of
           None \<Rightarrow> (None, (srv1, w))
         | Some result \<Rightarrow>
             (case mr_paymentRequired result of
                Some required \<Rightarrow>
                  (Some \<lparr>status = pq_status required, body = ChallengeBody (pq_body required)\<rparr>,
                   (srv1, w))
              | None \<Rightarrow>
                  if mr_error result \<noteq> None \<and> mr_error result \<noteq> Some []
                  then (Some \<lparr>status = 402,
                              body = ErrorBody (''Payment invalid: '' @ the (mr_error result))\<rparr>,
                        (srv1, w))
                  else
                    (case handler tool (ctx_body ctx) of
                       Inr toolResult \<Rightarrow>
                         (Some \<lparr>status = 200, body = ResultBody toolResult (mr_payment result)\<rparr>,
                          (incrementToolCalls (tool_name tool) srv1, w @ [Invoke (tool_name tool)]))
                     | Inl error \<Rightarrow>
                         (Some \<lparr>status = 500,
                                body = ErrorBody (case error of Error m \<Rightarrow> m
                                                  | Undefined \<Rightarrow> ''Tool execution failed'')\<rparr>,
                          (srv1, w @ [Invoke (tool_name tool)])))))"

section \<open>Reading a trace\<close>

definition fetches :: "world \<Rightarrow> FacilitatorRequest list" where
  "fetches w = concat (map (\<lambda>e. case e of Fetch rq \<Rightarrow> [rq] | _ \<Rightarrow> []) w)"

definition sleeps :: "world \<Rightarrow> nat list" where
  "sleeps w = concat (map (\<lambda>e. case e of Sleep d \<Rightarrow> [d] | _ \<Rightarrow> []) w)"

definition invocations :: "world \<Rightarrow> string list" where
  "invocations w = concat (map (\<lambda>e. case e of Invoke n \<Rightarrow> [n] | _ \<Rightarrow> []) w)"

text \<open>
  A request fails at the transport level, whenever it is sent: the \<open>fetch\<close> rejects or the
  response's status is not ok.
\<close>

definition transport_fails :: "env \<Rightarrow> FacilitatorRequest \<Rightarrow> bool" where
  "transport_fails E rq = (\<forall>w. case fetch E w rq of Inl e \<Rightarrow> True | Inr r \<Rightarrow> \<not> resp_ok r)"

text \<open>
  What the attempts \<open>i\<close>, ..., \<open>n - 2\<close> of a request leave in the trace when each of them
  fails: the request and then the wait before the next attempt.
\<close>

definition failed_attempts :: "FacilitatorRequest \<Rightarrow> nat \<Rightarrow> nat \<Rightarrow> nat \<Rightarrow> world" where
  "failed_attempts rq delay i n = concat (map (\<lambda>k. [Fetch rq, Sleep (delay * (k + 1))]) [i..<n - 1])"

text \<open>The settle requests that a trace holds for a client.\<close>

definition settle_calls :: "FacilitatorClient \<Rightarrow> world \<Rightarrow> FacilitatorRequest list" where
  "settle_calls c w = filter (\<lambda>rq. rq_url rq = baseUrl c @ FACILITATOR_ENDPOINTS_SETTLE) (fetches w)"

text \<open>
  Exponential backoff, in the words of the specification: the wait before retry number
  \<open>k + 1\<close> is the base delay times a fixed multiplier to the power \<open>k\<close>.
\<close>

definition exponential_backoff :: "nat \<Rightarrow> nat \<Rightarrow> nat list \<Rightarrow> bool" where
  "exponential_backoff base m ds = (ds = map (\<lambda>k. base * m ^ k) [0..<length ds])"

section \<open>Example values\<close>

text \<open>A facilitator that is up and gives the same two answers to every request.\<close>

definition facilitator_answers :: "VerifyResponse \<Rightarrow> SettleData \<Rightarrow> env" where
  "facilitator_answers v d =
     \<lparr>fetch = (\<lambda>w rq. Inr \<lparr>resp_ok = True, resp_status = 200, resp_text = ''{}''\<rparr>),
      JSON_parse_verify = (\<lambda>t. Inr (Some v)),
      JSON_parse_settle = (\<lambda>t. Inr d),
      randomUUID = (\<lambda>w. ''3b241101-e2bb-4255-8caf-4136c566a962''),
      Date_now = (\<lambda>w. 1700000000000)\<rparr>"

text \<open>A facilitator that cannot be reached.\<close>

definition facilitator_down :: env where
  "facilitator_down =
     \<lparr>fetch = (\<lambda>w rq. Inl (Error ''fetch failed'')),
      JSON_parse_verify = (\<lambda>t. Inl (Error ''Unexpected end of JSON input'')),
      JSON_parse_settle = (\<lambda>t. Inl (Error ''Unexpected end of JSON input'')),
      randomUUID = (\<lambda>w. ''3b241101-e2bb-4255-8caf-4136c566a962''),
      Date_now = (\<lambda>w. 1700000000000)\<rparr>"


text \<open>A facilitator that answers every request with status 503.\<close>

definition facilitator_overloaded :: env where
  "facilitator_overloaded =
     \<lparr>fetch = (\<lambda>w rq. Inr \<lparr>resp_ok = False, resp_status = 503, resp_text = ''Service Unavailable''\<rparr>),
      JSON_parse_verify = (\<lambda>t. Inl (Error ''Unexpected token S in JSON at position 0'')),
      JSON_parse_settle = (\<lambda>t. Inl (Error ''Unexpected token S in JSON at position 0'')),
      randomUUID = (\<lambda>w. ''3b241101-e2bb-4255-8caf-4136c566a962''),
      Date_now = (\<lambda>w. 1700000000000)\<rparr>"

definition answer_valid :: VerifyResponse where
  "answer_valid = \<lparr>isValid = True, invalidReason = None, payer = Some ''0xPayer''\<rparr>"

definition answer_invalid_signature :: VerifyResponse where
  "answer_invalid_signature =
     \<lparr>isValid = False, invalidReason = Some ''invalid_signature'', payer = None\<rparr>"

definition answer_settled :: SettleData where
  "answer_settled =
     \<lparr>sd_event = Some ''payment.settled'', sd_txHash = Some ''0xabc'', sd_from = Some ''0xPayer'',
      sd_to = Some ''0xSeller'', sd_value = Some ''1000'', sd_blockNumber = Some 17,
      sd_network = Some ''cronos-testnet'', sd_timestamp = Some ''2025-01-01T00:00:00Z'',
      sd_error = None\<rparr>"

definition answer_failed :: SettleData where
  "answer_failed =
     \<lparr>sd_event = Some ''payment.failed'', sd_txHash = None, sd_from = None, sd_to = None,
      sd_value = None, sd_blockNumber = None, sd_network = None, sd_timestamp = None,
      sd_error = Some ''insufficient_funds''\<rparr>"

definition example_tool :: "(unit, string) RegisteredTool" where
  "example_tool =
     \<lparr>tool_name = ''get_ohlcv'', tool_description = ''Candles'', tool_price = ''1000'',
      handler = (\<lambda>p. Inr ''candles'')\<rparr>"

definition example_server :: MCPServer where
  "example_server =
     \<lparr>paymentHandler =
        createPaymentHandler
          \<lparr>cfg_paymentAddress = ''0xSeller'', cfg_network = testnet, cfg_facilitatorUrl = None\<rparr>,
      toolCalls = []\<rparr>"

definition example_call :: "string option \<Rightarrow> unit RequestContext" where
  "example_call paymentHeader =
     \<lparr>ctx_headers = (\<lambda>k. if k = ''x-payment'' then paymentHeader else None), ctx_body = ()\<rparr>"

text \<open>What a \<open>recordSpending\<close> call with this amount adds to \<open>spent\<close> (nothing when it raises).\<close>

definition amount_value :: "string \<Rightarrow> int" where
  "amount_value s = (case BigInt s of None \<Rightarrow> 0 | Some a \<Rightarrow> a)"

definition recorded_sum :: "BudgetTransaction list \<Rightarrow> int" where
  "recorded_sum txs = sum_list (map (\<lambda>t. amount_value (bt_amount t)) txs)"

section \<open>Buffer: base64\<close>

text \<open>
  A \<open>Buffer\<close> is its list of bytes, and a string is its UTF-8 bytes, so \<open>Buffer.from(s)\<close> and
  \<open>buf.toString('utf-8')\<close> change nothing here. (Where decoded bytes are not well-formed
  UTF-8 the runtime puts U+FFFD in their place; the model keeps the bytes. \<open>JSON.parse\<close>
  fails or succeeds alike on both.)

  \<open>buf.toString('base64')\<close> writes the standard alphabet with padding.
  \<open>Buffer.from(s, 'base64')\<close> is the runtime's lenient decoder: it never throws, it skips
  every character that is not of the alphabet (the URL-safe \<open>-\<close> and \<open>_\<close> count as \<open>+\<close> and
  \<open>/\<close>), it stops at the first \<open>=\<close>, and a last group of two or three characters gives one
  or two bytes.
\<close>

definition base64_char :: "nat \<Rightarrow> char" where
  "base64_char k =
     (if k < 26 then char_of (65 + k)
      else if k < 52 then char_of (71 + k)
      else if k < 62 then char_of (k - 4)
      else if k = 62 then char_of (43::nat) else char_of (47::nat))"

definition unbase64 :: "char \<Rightarrow> nat option" where
  "unbase64 c =
     (let n = (of_char c :: nat) in
      if 65 \<le> n \<and> n \<le> 90 then Some (n - 65)
      else if 97 \<le> n \<and> n \<le> 122 then Some (n - 71)
      else if 48 \<le> n \<and> n \<le> 57 then Some (n + 4)
      else if n = 43 \<or> n = 45 then Some 62
      else if n = 47 \<or> n = 95 then Some 63
      else None)"

fun toString_base64 :: "string \<Rightarrow> string" where
  "toString_base64 (a # b # c # rest) =
     (let x = (of_char a :: nat); y = (of_char b :: nat); z = (of_char c :: nat)
      in [base64_char (x div 4), base64_char ((x mod 4) * 16 + y div 16),
          base64_char ((y mod 16) * 4 + z div 64), base64_char (z mod 64)]
         @ toString_base64 rest)"
| "toString_base64 [a, b] =
     (let x = (of_char a :: nat); y = (of_char b :: nat)
      in [base64_char (x div 4), base64_char ((x mod 4) * 16 + y div 16),
          base64_char ((y mod 16) * 4), CHR ''=''])"
| "toString_base64 [a] =
     (let x = (of_char a :: nat)
      in [base64_char (x div 4), base64_char ((x mod 4) * 16), CHR ''='', CHR ''=''])"
| "toString_base64 [] = []"

fun from_sextets :: "nat list \<Rightarrow> string" where
  "from_sextets (p # q # r # s # rest) =
     [char_of (p * 4 + q div 16), char_of ((q mod 16) * 16 + r div 4), char_of ((r mod 4) * 64 + s)]
       @ from_sextets rest"
| "from_sextets [p, q, r] = [char_of (p * 4 + q div 16), char_of ((q mod 16) * 16 + r div 4)]"
| "from_sextets [p, q] = [char_of (p * 4 + q div 16)]"
| "from_sextets [p] = []"
| "from_sextets [] = []"

definition from_base64 :: "string \<Rightarrow> string" where
  "from_base64 s = from_sextets (List.map_filter unbase64 (takeWhile (\<lambda>c. c \<noteq> CHR ''='') s))"

section \<open>JSON\<close>

text \<open>
  A JSON value. A number that is an integer is \<open>JNumber\<close>; a number literal with a fraction
  or an exponent denotes a double that the model does not compute and is kept as its text
  (\<open>JNumberLiteral\<close>, which \<open>JSON.stringify\<close> here writes back as that text; the properties
  below are about values without such numbers). An object is the list of its members in
  the order of the text; reading a property takes the last member of that name.

  \<open>JSON.stringify\<close> writes no white space, quotes strings as the language prescribes
  (the quote, the backslash and the control characters escaped) and prints an integer in decimal.
  \<open>JSON.parse\<close> is a lexer, a finite automaton over the characters, followed by a parser,
  an automaton with a stack of the open arrays and objects over the tokens; \<open>None\<close> is the
  SyntaxError. A \<open>\u\<close> escape gives the UTF-8 bytes of its code unit (two escapes that
  form a surrogate pair are not joined).
\<close>

datatype json =
    JNull
  | JBool bool
  | JNumber int
  | JNumberLiteral string
  | JString string
  | JArray "json list"
  | JObject "(string \<times> json) list"

definition hex_digit :: "nat \<Rightarrow> char" where
  "hex_digit n = (if n < 10 then char_of (48 + n) else char_of (87 + n))"

definition quote_char :: "char \<Rightarrow> string" where
  "quote_char c =
     (let n = (of_char c :: nat) in
      if n = 34 then [CHR 0x5C, CHR 0x22]
      else if n = 92 then [CHR 0x5C, CHR 0x5C]
      else if n = 8 then [CHR 0x5C, CHR ''b'']
      else if n = 9 then [CHR 0x5C, CHR ''t'']
      else if n = 10 then [CHR 0x5C, CHR ''n'']
      else if n = 12 then [CHR 0x5C, CHR ''f'']
      else if n = 13 then [CHR 0x5C, CHR ''r'']
      else if n < 32 then [CHR 0x5C, CHR ''u'', CHR ''0'', CHR ''0'', hex_digit (n div 16), hex_digit (n mod 16)]
      else [c])"

definition QuoteJSONString :: "string \<Rightarrow> string" where
  "QuoteJSONString s = CHR 0x22 # concat (map quote_char s) @ [CHR 0x22]"

text \<open>The elements of a list, with commas between them.\<close>

fun join_commas :: "string list \<Rightarrow> string" where
  "join_commas [] = []"
| "join_commas (x # xs) = x @ concat (map (\<lambda>y. CHR '','' # y) xs)"

fun JSON_stringify :: "json \<Rightarrow> string" where
  "JSON_stringify JNull = ''null''"
| "JSON_stringify (JBool b) = (if b then ''true'' else ''false'')"
| "JSON_stringify (JNumber n) = toString n"
| "JSON_stringify (JNumberLiteral t) = t"
| "JSON_stringify (JString s) = QuoteJSONString s"
| "JSON_stringify (JArray xs) = CHR ''['' # join_commas (map JSON_stringify xs) @ [CHR '']'']"
| "JSON_stringify (JObject ms) =
     CHR ''{'' # join_commas (map (\<lambda>(k, v). QuoteJSONString k @ CHR '':'' # JSON_stringify v) ms)
       @ [CHR ''}'']"

subsection \<open>JSON.parse: the lexer\<close>

datatype token = LBrace | RBrace | LBracket | RBracket | Colon | Comma | Atom json

datatype num_state = NMinus | NZero | NInt | NDot | NFrac | NE | NESign | NExp

datatype lex_state =
    Top
  | InString string
  | InEscape string
  | InUnicode string "nat list"
  | InNumber num_state string
  | InLiteral string token

definition is_json_space :: "char \<Rightarrow> bool" where
  "is_json_space c = ((of_char c :: nat) \<in> {9, 10, 13, 32})"

text \<open>The UTF-8 bytes of the code unit that a \<open>\u\<close> escape names.\<close>

definition utf8_of_unit :: "nat \<Rightarrow> string" where
  "utf8_of_unit u =
     (if u < 128 then [char_of u]
      else if u < 2048 then [char_of (192 + u div 64), char_of (128 + u mod 64)]
      else [char_of (224 + u div 4096), char_of (128 + (u div 64) mod 64), char_of (128 + u mod 64)])"

definition number_token :: "num_state \<Rightarrow> string \<Rightarrow> token option" where
  "number_token st lit =
     (if st = NZero \<or> st = NInt
      then (case lit of
              [] \<Rightarrow> None
            | c # cs \<Rightarrow>
                if c = CHR ''-''
                then map_option (\<lambda>n. Atom (JNumber (- int n))) (digits_value 10 cs 0)
                else map_option (\<lambda>n. Atom (JNumber (int n))) (digits_value 10 (c # cs) 0))
      else if st = NFrac \<or> st = NExp then Some (Atom (JNumberLiteral lit))
      else None)"

definition top_step :: "char \<Rightarrow> (token list \<times> lex_state) option" where
  "top_step c =
     (if is_json_space c then Some ([], Top)
      else if c = CHR ''{'' then Some ([LBrace], Top)
      else if c = CHR ''}'' then Some ([RBrace], Top)
      else if c = CHR ''['' then Some ([LBracket], Top)
      else if c = CHR '']'' then Some ([RBracket], Top)
      else if c = CHR '':'' then Some ([Colon], Top)
      else if c = CHR '','' then Some ([Comma], Top)
      else if c = CHR 0x22 then Some ([], InString [])
      else if c = CHR ''-'' then Some ([], InNumber NMinus [c])
      else if c = CHR ''0'' then Some ([], InNumber NZero [c])
      else if is_digit c then Some ([], InNumber NInt [c])
      else if c = CHR ''t'' then Some ([], InLiteral ''rue'' (Atom (JBool True)))
      else if c = CHR ''f'' then Some ([], InLiteral ''alse'' (Atom (JBool False)))
      else if c = CHR ''n'' then Some ([], InLiteral ''ull'' (Atom JNull))
      else None)"

text \<open>The number automaton: the next state, or \<open>None\<close> when the character does not continue the number.\<close>

definition number_step :: "num_state \<Rightarrow> char \<Rightarrow> num_state option" where
  "number_step st c =
     (case st of
        NMinus \<Rightarrow> if c = CHR ''0'' then Some NZero else if is_digit c then Some NInt else None
      | NZero \<Rightarrow> if c = CHR ''.'' then Some NDot
                 else if c = CHR ''e'' \<or> c = CHR ''E'' then Some NE else None
      | NInt \<Rightarrow> if is_digit c then Some NInt
                else if c = CHR ''.'' then Some NDot
                else if c = CHR ''e'' \<or> c = CHR ''E'' then Some NE else None
      | NDot \<Rightarrow> if is_digit c then Some NFrac else None
      | NFrac \<Rightarrow> if is_digit c then Some NFrac
                 else if c = CHR ''e'' \<or> c = CHR ''E'' then Some NE else None
      | NE \<Rightarrow> if c = CHR ''+'' \<or> c = CHR ''-'' then Some NESign
              else if is_digit c then Some NExp else None
      | NESign \<Rightarrow> if is_digit c then Some NExp else None
      | NExp \<Rightarrow> if is_digit c then Some NExp else None)"

definition lex_step :: "lex_state \<Rightarrow> char \<Rightarrow> (token list \<times> lex_state) option" where
  "lex_step st c =
     (case st of
        Top \<Rightarrow> top_step c
      | InString acc \<Rightarrow>
          if c = CHR 0x22 then Some ([Atom (JString acc)], Top)
          else if c = CHR 0x5C then Some ([], InEscape acc)
          else if (of_char c :: nat) < 32 then None
          else Some ([], InString (acc @ [c]))
      | InEscape acc \<Rightarrow>
          if c = CHR 0x22 \<or> c = CHR 0x5C \<or> c = CHR ''/'' then Some ([], InString (acc @ [c]))
          else if c = CHR ''b'' then Some ([], InString (acc @ [CHR 0x08]))
          else if c = CHR ''f'' then Some ([], InString (acc @ [CHR 0x0C]))
          else if c = CHR ''n'' then Some ([], InString (acc @ [CHR 0x0A]))
          else if c = CHR ''r'' then Some ([], InString (acc @ [CHR 0x0D]))
          else if c = CHR ''t'' then Some ([], InString (acc @ [CHR 0x09]))
          else if c = CHR ''u'' then Some ([], InUnicode acc [])
          else None
      | InUnicode acc ds \<Rightarrow>
          (case digit_val c of
             None \<Rightarrow> None
           | Some d \<Rightarrow>
               if length ds < 3 then Some ([], InUnicode acc (ds @ [d]))
               else Some ([], InString (acc @ utf8_of_unit (foldl (\<lambda>a x. a * 16 + x) 0 (ds @ [d])))))
      | InNumber ns lit \<Rightarrow>
          (case number_step ns c of
             Some ns' \<Rightarrow> Some ([], InNumber ns' (lit @ [c]))
           | None \<Rightarrow>
               (case number_token ns lit of
                  None \<Rightarrow> None
                | Some t \<Rightarrow>
                    (case top_step c of
                       None \<Rightarrow> None
                     | Some (ts, st') \<Rightarrow> Some (t # ts, st'))))
      | InLiteral rest t \<Rightarrow>
          (case rest of
             [] \<Rightarrow> None
           | r # rs \<Rightarrow>
               if c \<noteq> r then None
               else if rs = [] then Some ([t], Top)
               else Some ([], InLiteral rs t)))"

definition lex_end :: "lex_state \<Rightarrow> token list option" where
  "lex_end st =
     (case st of
        Top \<Rightarrow> Some []
      | InNumber ns lit \<Rightarrow> map_option (\<lambda>t. [t]) (number_token ns lit)
      | _ \<Rightarrow> None)"

fun lexer :: "lex_state \<Rightarrow> string \<Rightarrow> token list option" where
  "lexer st [] = lex_end st"
| "lexer st (c # cs) =
     (case lex_step st c of
        None \<Rightarrow> None
      | Some (ts, st') \<Rightarrow> map_option (\<lambda>r. ts @ r) (lexer st' cs))"

subsection \<open>JSON.parse: the parser\<close>

datatype frame = InArray "json list" | InObject "(string \<times> json) list" "string option"

datatype phase = PValue | PValueOrEnd | PKeyOrEnd | PKey | PColon | PCommaOrEnd | PDone json

text \<open>A value is complete: it goes into the open container, or it is the result.\<close>

definition complete :: "json \<Rightarrow> frame list \<Rightarrow> (frame list \<times> phase) option" where
  "complete v stack =
     (case stack of
        [] \<Rightarrow> Some ([], PDone v)
      | InArray xs # st \<Rightarrow> Some (InArray (xs @ [v]) # st, PCommaOrEnd)
      | InObject ms (Some k) # st \<Rightarrow> Some (InObject (ms @ [(k, v)]) None # st, PCommaOrEnd)
      | InObject ms None # st \<Rightarrow> None)"

definition parse_step :: "frame list \<times> phase \<Rightarrow> token \<Rightarrow> (frame list \<times> phase) option" where
  "parse_step s t =
     (let stack = fst s
      in case snd s of
           PValue \<Rightarrow>
             (case t of
                Atom v \<Rightarrow> complete v stack
              | LBracket \<Rightarrow> Some (InArray [] # stack, PValueOrEnd)
              | LBrace \<Rightarrow> Some (InObject [] None # stack, PKeyOrEnd)
              | _ \<Rightarrow> None)
         | PValueOrEnd \<Rightarrow>
             (case t of
                Atom v \<Rightarrow> complete v stack
              | LBracket \<Rightarrow> Some (InArray [] # stack, PValueOrEnd)
              | LBrace \<Rightarrow> Some (InObject [] None # stack, PKeyOrEnd)
              | RBracket \<Rightarrow>
                  (case stack of InArray xs # st \<Rightarrow> complete (JArray xs) st | _ \<Rightarrow> None)
              | _ \<Rightarrow> None)
         | PKeyOrEnd \<Rightarrow>
             (case t of
                Atom (JString k) \<Rightarrow>
                  (case stack of
                     InObject ms None # st \<Rightarrow> Some (InObject ms (Some k) # st, PColon)
                   | _ \<Rightarrow> None)
              | RBrace \<Rightarrow>
                  (case stack of InObject ms None # st \<Rightarrow> complete (JObject ms) st | _ \<Rightarrow> None)
              | _ \<Rightarrow> None)
         | PKey \<Rightarrow>
             (case t of
                Atom (JString k) \<Rightarrow>
                  (case stack of
                     InObject ms None # st \<Rightarrow> Some (InObject ms (Some k) # st, PColon)
                   | _ \<Rightarrow> None)
              | _ \<Rightarrow> None)
         | PColon \<Rightarrow> (case t of Colon \<Rightarrow> Some (stack, PValue) | _ \<Rightarrow> None)
         | PCommaOrEnd \<Rightarrow>
             (case t of
                Comma \<Rightarrow>
                  (case stack of
                     InArray xs # st \<Rightarrow> Some (stack, PValue)
                   | InObject ms None # st \<Rightarrow> Some (stack, PKey)
                   | _ \<Rightarrow> None)
              | RBracket \<Rightarrow>
                  (case stack of InArray xs # st \<Rightarrow> complete (JArray xs) st | _ \<Rightarrow> None)
              | RBrace \<Rightarrow>
                  (case stack of InObject ms None # st \<Rightarrow> complete (JObject ms) st | _ \<Rightarrow> None)
              | _ \<Rightarrow> None)
         | PDone v \<Rightarrow> None)"

fun parse_tokens :: "frame list \<times> phase \<Rightarrow> token list \<Rightarrow> json option" where
  "parse_tokens s [] = (case snd s of PDone v \<Rightarrow> Some v | _ \<Rightarrow> None)"
| "parse_tokens s (t # ts) =
     (case parse_step s t of None \<Rightarrow> None | Some s' \<Rightarrow> parse_tokens s' ts)"

definition JSON_parse :: "string \<Rightarrow> json option" where
  "JSON_parse text =
     (case lexer Top text of None \<Rightarrow> None | Some ts \<Rightarrow> parse_tokens ([], PValue) ts)"

subsection \<open>Notions of the proofs\<close>

text \<open>
  The sextets of a list of bytes, the tokens of a value as \<open>JSON.stringify\<close> writes it,
  what may follow a number, and the values all of whose numbers are integers.
\<close>

fun sextets :: "string \<Rightarrow> nat list" where
  "sextets (a # b # c # rest) =
     [of_char a div 4, (of_char a mod 4) * 16 + of_char b div 16,
      (of_char b mod 16) * 4 + of_char c div 64, of_char c mod 64] @ sextets rest"
| "sextets [a, b] =
     [of_char a div 4, (of_char a mod 4) * 16 + of_char b div 16, (of_char b mod 16) * 4]"
| "sextets [a] = [of_char a div 4, (of_char a mod 4) * 16]"
| "sextets [] = []"

definition ends_number :: "string \<Rightarrow> bool" where
  "ends_number rest =
     (case rest of [] \<Rightarrow> True
      | d # _ \<Rightarrow> \<not> is_digit d \<and> d \<noteq> CHR ''.'' \<and> d \<noteq> CHR ''e'' \<and> d \<noteq> CHR ''E'')"

fun sep_tokens :: "token list list \<Rightarrow> token list" where
  "sep_tokens [] = []"
| "sep_tokens (x # xs) = x @ concat (map (\<lambda>y. Comma # y) xs)"

fun tokens :: "json \<Rightarrow> token list" where
  "tokens (JArray xs) = LBracket # sep_tokens (map tokens xs) @ [RBracket]"
| "tokens (JObject ms) =
     LBrace # sep_tokens (map (\<lambda>(k, v). Atom (JString k) # Colon # tokens v) ms) @ [RBrace]"
| "tokens v = [Atom v]"

fun integral :: "json \<Rightarrow> bool" where
  "integral (JNumberLiteral t) = False"
| "integral (JArray xs) = list_all integral xs"
| "integral (JObject ms) = list_all (\<lambda>(k, v). integral v) ms"
| "integral v = True"

section \<open>The payment header (core utils and payment, eip712.ts)\<close>

record PayloadFields =
  pp_from :: string
  pp_to :: string
  pp_value :: string
  pp_validAfter :: int
  pp_validBefore :: int
  pp_nonce :: string
  pp_signature :: string
  pp_asset :: string

record CronosPaymentPayload =
  cp_x402Version :: int
  cp_scheme :: string
  cp_network :: string
  cp_payload :: PayloadFields

text \<open>The JavaScript object of a payload, as the value that \<open>JSON.stringify\<close> sees: the properties in the order of the object literal.\<close>

definition payload_json :: "CronosPaymentPayload \<Rightarrow> json" where
  "payload_json p =
     JObject
       [(''x402Version'', JNumber (cp_x402Version p)),
        (''scheme'', JString (cp_scheme p)),
        (''network'', JString (cp_network p)),
        (''payload'',
           JObject
             [(''from'', JString (pp_from (cp_payload p))),
              (''to'', JString (pp_to (cp_payload p))),
              (''value'', JString (pp_value (cp_payload p))),
              (''validAfter'', JNumber (pp_validAfter (cp_payload p))),
              (''validBefore'', JNumber (pp_validBefore (cp_payload p))),
              (''nonce'', JString (pp_nonce (cp_payload p))),
              (''signature'', JString (pp_signature (cp_payload p))),
              (''asset'', JString (pp_asset (cp_payload p)))])]"

text \<open>Reading a property of a parsed value: \<open>None\<close> is \<open>undefined\<close>.\<close>

definition property :: "string \<Rightarrow> json \<Rightarrow> json option" where
  "property k v = (case v of JObject ms \<Rightarrow> map_of (rev ms) k | _ \<Rightarrow> None)"

text \<open>\<open>payload.asset\<close> of a parsed header.\<close>

definition payload_asset :: "json \<Rightarrow> json option" where
  "payload_asset v = Option.bind (property ''payload'' v) (property ''asset'')"

text \<open>\<open>parsePaymentHeader\<close> and \<open>encodePaymentHeader\<close> of core utils.\<close>

definition parsePaymentHeader :: "string \<Rightarrow> js_error + json" where
  "parsePaymentHeader base64Header =
     (case JSON_parse (from_base64 base64Header) of
        None \<Rightarrow> Inl (Error ''Invalid payment header format'')
      | Some v \<Rightarrow> Inr v)"

definition encodePaymentHeader :: "json \<Rightarrow> string" where
  "encodePaymentHeader payload = toString_base64 (JSON_stringify payload)"

text \<open>
  \<open>decodePaymentHeader\<close> of the payment package has no \<open>try\<close>: what \<open>JSON.parse\<close> raises
  goes to the caller as it is.
\<close>

datatype runtime_error = SyntaxError

definition decodePaymentHeader :: "string \<Rightarrow> runtime_error + json" where
  "decodePaymentHeader base64Header =
     (case JSON_parse (from_base64 base64Header) of
        None \<Rightarrow> Inl SyntaxError
      | Some v \<Rightarrow> Inr v)"

definition validatePaymentPayload :: "CronosPaymentPayload \<Rightarrow> bool" where
  "validatePaymentPayload p =
     (if cp_x402Version p = 0 \<or> cp_x402Version p \<noteq> X402_VERSION then False
      else if cp_scheme p = [] \<or> cp_network p = [] then False
      else if pp_signature (cp_payload p) = [] \<or> pp_nonce (cp_payload p) = []
              \<or> pp_asset (cp_payload p) = [] then False
      else True)"

section \<open>Signing a payment (payment, eip712.ts and client-sdk, client.ts)\<close>

record EIP712Domain =
  dom_name :: string
  dom_version :: string
  dom_chainId :: nat
  dom_verifyingContract :: string

record TransferWithAuthorization =
  msg_from :: string
  msg_to :: string
  msg_value :: int
  msg_validAfter :: int
  msg_validBefore :: int
  msg_nonce :: string

text \<open>An ethers wallet: its address, and its signature of a typed message.\<close>

record Wallet =
  address :: string
  signTypedData :: "EIP712Domain \<Rightarrow> TransferWithAuthorization \<Rightarrow> string"

definition calculateValidBefore :: "int \<Rightarrow> int \<Rightarrow> int" where
  "calculateValidBefore now timeoutSeconds = now div 1000 + timeoutSeconds"

text \<open>
  \<open>createPaymentHeader\<close> of the payment package. \<open>nonce\<close> is what \<open>generateNonce()\<close> drew and
  \<open>now\<close> what \<open>Date.now()\<close> read. \<open>createPaymentPayload\<close> is the function up to its local
  \<open>paymentPayload\<close>; the outcome is \<open>None\<close> when \<open>BigInt(requirements.maxAmountRequired)\<close>
  raises.
\<close>

definition createPaymentPayload ::
  "Wallet \<Rightarrow> PaymentRequirements \<Rightarrow> network \<Rightarrow> string \<Rightarrow> int \<Rightarrow> CronosPaymentPayload option" where
  "createPaymentPayload wallet requirements net nonce now =
     (let networkConfig = (if net = mainnet then CRONOS_NETWORKS_MAINNET else CRONOS_NETWORKS_TESTNET);
          validAfter = 0;
          validBefore = now div 1000 + TIMEOUTS_PAYMENT_VALIDITY;
          domain = \<lparr>dom_name = EIP712_DOMAIN_NAME, dom_version = EIP712_DOMAIN_VERSION,
                    dom_chainId = nc_chainId networkConfig,
                    dom_verifyingContract = pr_asset requirements\<rparr>
      in case BigInt (pr_maxAmountRequired requirements) of
           None \<Rightarrow> None
         | Some amount \<Rightarrow>
             (let message = \<lparr>msg_from = address wallet, msg_to = pr_payTo requirements,
                             msg_value = amount, msg_validAfter = validAfter,
                             msg_validBefore = validBefore, msg_nonce = nonce\<rparr>;
                  signature = signTypedData wallet domain message
              in Some \<lparr>cp_x402Version = X402_VERSION,
                        cp_scheme = (if pr_scheme requirements = [] then PAYMENT_SCHEMES_EXACT
                                     else pr_scheme requirements),
                        cp_network = pr_network requirements,
                        cp_payload =
                          \<lparr>pp_from = address wallet, pp_to = pr_payTo requirements,
                           pp_value = pr_maxAmountRequired requirements,
                           pp_validAfter = validAfter, pp_validBefore = validBefore,
                           pp_nonce = nonce, pp_signature = signature,
                           pp_asset = pr_asset requirements\<rparr>\<rparr>))"

definition createPaymentHeader ::
  "Wallet \<Rightarrow> PaymentRequirements \<Rightarrow> network \<Rightarrow> string \<Rightarrow> int \<Rightarrow> string option" where
  "createPaymentHeader wallet requirements net nonce now =
     map_option (\<lambda>paymentPayload. toString_base64 (JSON_stringify (payload_json paymentPayload)))
       (createPaymentPayload wallet requirements net nonce now)"

text \<open>
  \<open>MCPClient.createPaymentHeader\<close> of the client SDK, for a client with this network and
  this wallet (\<open>None\<close> when no private key was configured). Without a wallet it throws; the
  outcome is \<open>None\<close> when \<open>BigInt\<close> raises. \<open>MCPClient_payload\<close> is the function up to its
  local \<open>payload\<close>.
\<close>

definition MCPClient_payload ::
  "network \<Rightarrow> Wallet \<Rightarrow> PaymentRequirements \<Rightarrow> string \<Rightarrow> int \<Rightarrow> CronosPaymentPayload option" where
  "MCPClient_payload net wallet requirements nonce now =
     (let validBefore = calculateValidBefore now (pr_maxTimeoutSeconds requirements);
          networkConfig = (if net = mainnet then CRONOS_NETWORKS_MAINNET else CRONOS_NETWORKS_TESTNET);
          domain = \<lparr>dom_name = EIP712_DOMAIN_NAME, dom_version = EIP712_DOMAIN_VERSION,
                    dom_chainId = nc_chainId networkConfig,
                    dom_verifyingContract = pr_asset requirements\<rparr>
      in case BigInt (pr_maxAmountRequired requirements) of
           None \<Rightarrow> None
         | Some amount \<Rightarrow>
             (let message = \<lparr>msg_from = address wallet, msg_to = pr_payTo requirements,
                             msg_value = amount, msg_validAfter = 0,
                             msg_validBefore = validBefore, msg_nonce = nonce\<rparr>;
                  signature = signTypedData wallet domain message
              in Some \<lparr>cp_x402Version = X402_VERSION,
                        cp_scheme = pr_scheme requirements,
                        cp_network = pr_network requirements,
                        cp_payload =
                          \<lparr>pp_from = address wallet, pp_to = pr_payTo requirements,
                           pp_value = pr_maxAmountRequired requirements,
                           pp_validAfter = 0, pp_validBefore = validBefore,
                           pp_nonce = nonce, pp_signature = signature,
                           pp_asset = pr_asset requirements\<rparr>\<rparr>))"

definition MCPClient_createPaymentHeader ::
  "network \<Rightarrow> Wallet option \<Rightarrow> PaymentRequirements \<Rightarrow> string \<Rightarrow> int
     \<Rightarrow> (js_error + string) option" where
  "MCPClient_createPaymentHeader net wallet requirements nonce now =
     (case wallet of
        None \<Rightarrow> Some (Inl (Error ''Wallet not configured - cannot sign payments''))
      | Some w \<Rightarrow>
          map_option (\<lambda>payload. Inr (toString_base64 (JSON_stringify (payload_json payload))))
            (MCPClient_payload net w requirements nonce now))"

text \<open>
  Base64 as a grammar (RFC 4648), for what the specification calls valid base64: groups of
  four characters of the standard alphabet, the last group padded with one or two \<open>=\<close>.
\<close>

fun valid_base64 :: "string \<Rightarrow> bool" where
  "valid_base64 [] = True"
| "valid_base64 [a, b, c, d] =
     (unbase64 a \<noteq> None \<and> a \<noteq> CHR ''-'' \<and> a \<noteq> CHR ''_''
      \<and> unbase64 b \<noteq> None \<and> b \<noteq> CHR ''-'' \<and> b \<noteq> CHR ''_''
      \<and> (c = CHR ''='' \<and> d = CHR ''=''
         \<or> unbase64 c \<noteq> None \<and> c \<noteq> CHR ''-'' \<and> c \<noteq> CHR ''_''
           \<and> (d = CHR ''='' \<or> unbase64 d \<noteq> None \<and> d \<noteq> CHR ''-'' \<and> d \<noteq> CHR ''_'')))"
| "valid_base64 (a # b # c # d # rest) =
     (unbase64 a \<noteq> None \<and> a \<noteq> CHR ''-'' \<and> a \<noteq> CHR ''_''
      \<and> unbase64 b \<noteq> None \<and> b \<noteq> CHR ''-'' \<and> b \<noteq> CHR ''_''
      \<and> unbase64 c \<noteq> None \<and> c \<noteq> CHR ''-'' \<and> c \<noteq> CHR ''_''
      \<and> unbase64 d \<noteq> None \<and> d \<noteq> CHR ''-'' \<and> d \<noteq> CHR ''_''
      \<and> valid_base64 rest)"
| "valid_base64 _ = False"

text \<open>Example values for the client side.\<close>

definition example_payload :: CronosPaymentPayload where
  "example_payload =
     \<lparr>cp_x402Version = 1, cp_scheme = ''exact'', cp_network = ''cronos-testnet'',
      cp_payload =
        \<lparr>pp_from = ''0xPayer'', pp_to = ''0xSeller'', pp_value = ''1000'',
         pp_validAfter = 0, pp_validBefore = 1700000300, pp_nonce = ''0x01'',
         pp_signature = ''0xSignature'',
         pp_asset = ''0xc01efAaF7C5C61bEbFAeb358E1161b537b8bC0e0''\<rparr>\<rparr>"

definition example_wallet :: Wallet where
  "example_wallet = \<lparr>address = ''0xPayer'', signTypedData = (\<lambda>domain message. ''0xSignature'')\<rparr>"

definition example_requirements :: "int \<Rightarrow> PaymentRequirements" where
  "example_requirements seconds =
     \<lparr>pr_scheme = ''exact'', pr_network = ''cronos-testnet'', pr_maxAmountRequired = ''1000'',
      pr_resource = ''tool://get_ohlcv'', pr_description = Some ''Candles'',
      pr_mimeType = ''application/json'', pr_payTo = ''0xSeller'',
      pr_maxTimeoutSeconds = seconds,
      pr_asset = ''0xc01efAaF7C5C61bEbFAeb358E1161b537b8bC0e0''\<rparr>"

section \<open>Properties of BigInt and of the budget manager\<close>

lemma digit_val_char_of: "k < 10 \<Longrightarrow> digit_val (char_of (48 + k)) = Some k"
  by (simp add: digit_val_def Let_def)

lemma digits_value_append:
  "digits_value r (xs @ ys) acc =
     (case digits_value r xs acc of None \<Rightarrow> None | Some a \<Rightarrow> digits_value r ys a)"
  by (induction xs arbitrary: acc) (auto split: option.splits)

lemma digits_value_nat_toString: "digits_value 10 (nat_toString n) 0 = Some n"
proof (induction n rule: nat_toString.induct)
  case (1 n)
  show ?case
  proof (cases "n < 10")
    case True
    then show ?thesis by (subst nat_toString.simps) (simp add: digit_val_char_of)
  next
    case False
    have d: "digit_val (char_of (48 + n mod 10)) = Some (n mod 10)"
      by (rule digit_val_char_of) simp
    from False 1 have "digits_value 10 (nat_toString (n div 10)) 0 = Some (n div 10)" by simp
    with False d show ?thesis
      by (subst nat_toString.simps) (simp add: digits_value_append)
  qed
qed

lemma nat_toString_digits: "c \<in> set (nat_toString n) \<Longrightarrow> is_digit c"
proof (induction n rule: nat_toString.induct)
  case (1 n)
  show ?case
  proof (cases "n < 10")
    case True
    with 1(2) show ?thesis by (subst (asm) nat_toString.simps) (auto simp: is_digit_def)
  next
    case False
    have "n mod 10 < 10" by simp
    with False 1 show ?thesis
      by (subst (asm) (2) nat_toString.simps) (auto simp: is_digit_def)
  qed
qed

lemma nat_toString_nonempty: "nat_toString n \<noteq> []"
  by (subst nat_toString.simps) simp

text \<open>A string that starts and ends with a digit or a sign has no white space to trim.\<close>

lemma strip_front:
  assumes "\<not> w1 (hd s)" and "\<And>b. \<not> w2 (hd s) b" and "\<And>b c. \<not> w3 (hd s) b c"
  shows "strip w1 w2 w3 s = s"
  using assms by (cases "(w1, w2, w3, s)" rule: strip.cases) simp_all

lemma sign_or_digit_not_ws:
  assumes "is_sign_or_digit a"
  shows "\<not> is_white_space a" "\<not> is_white_space2 a b" "\<not> is_white_space2 b a"
    "\<not> is_white_space3 a b c" "\<not> is_white_space3 c b a"
proof -
  from assms have "(of_char a :: nat) = 45 \<or> 48 \<le> (of_char a :: nat) \<and> (of_char a :: nat) \<le> 57"
    by (auto simp: is_sign_or_digit_def is_digit_def)
  then show "\<not> is_white_space a" "\<not> is_white_space2 a b" "\<not> is_white_space2 b a"
    "\<not> is_white_space3 a b c" "\<not> is_white_space3 c b a"
    by (auto simp: is_white_space_def is_white_space2_def is_white_space3_def Let_def)
qed

lemma trim_no_ws:
  assumes "s \<noteq> []" and "is_sign_or_digit (hd s)" and "is_sign_or_digit (last s)"
  shows "trim s = s"
proof -
  have a: "strip is_white_space is_white_space2 is_white_space3 s = s"
    by (rule strip_front) (simp_all add: sign_or_digit_not_ws [OF assms(2)])
  have "hd (rev s) = last s" using assms(1) by (simp add: hd_rev)
  then have b: "strip is_white_space (\<lambda>b a. is_white_space2 a b) (\<lambda>c b a. is_white_space3 a b c) (rev s)
                  = rev s"
    by (intro strip_front) (simp_all add: sign_or_digit_not_ws [OF assms(3)])
  show ?thesis by (simp add: trim_def a b)
qed

lemma BigInt_nat_toString: "BigInt (nat_toString n) = Some (int n)"
proof -
  obtain c cs where s: "nat_toString n = c # cs"
    using nat_toString_nonempty [of n] by (cases "nat_toString n") auto
  have dig: "\<forall>x\<in>set (c # cs). is_digit x"
    using nat_toString_digits [of _ n] s by auto
  then have "is_sign_or_digit (hd (c # cs))" "is_sign_or_digit (last (c # cs))"
    by (simp_all add: is_sign_or_digit_def)
  then have t: "trim (c # cs) = c # cs"
    by (intro trim_no_ws) simp_all
  from dig have c: "c \<noteq> CHR ''-''" "c \<noteq> CHR ''+''" by (auto simp: is_digit_def)
  from dig have h: "cs \<noteq> [] \<Longrightarrow> hd cs \<notin> {CHR ''x'', CHR ''X'', CHR ''o'', CHR ''O'', CHR ''b'', CHR ''B''}"
    by (cases cs) (auto simp: is_digit_def)
  have "parse_digits 10 (c # cs) = Some n"
    using digits_value_nat_toString [of n] s by (simp add: parse_digits_def)
  with t c h show ?thesis unfolding s BigInt_def by auto
qed

text \<open>Printing a bigint and reading it back gives the same integer.\<close>

lemma BigInt_toString: "BigInt (toString i) = Some i"
proof (cases "i < 0")
  case False
  then show ?thesis by (simp add: toString_def BigInt_nat_toString)
next
  case True
  let ?m = "nat (- i)"
  have "is_digit (last (nat_toString ?m))"
    using nat_toString_digits [of _ ?m] nat_toString_nonempty [of ?m] by simp
  then have "is_sign_or_digit (last (CHR ''-'' # nat_toString ?m))"
    using nat_toString_nonempty [of ?m] by (simp add: is_sign_or_digit_def)
  then have t: "trim (CHR ''-'' # nat_toString ?m) = CHR ''-'' # nat_toString ?m"
    by (intro trim_no_ws) (simp_all add: is_sign_or_digit_def)
  have "parse_digits 10 (nat_toString ?m) = Some ?m"
    using digits_value_nat_toString [of ?m] nat_toString_nonempty [of ?m]
    by (simp add: parse_digits_def)
  with t True show ?thesis by (simp add: toString_def BigInt_def)
qed

lemma recordSpending_total: "total (snd (recordSpending now e b)) = total b"
  by (simp add: recordSpending_def Let_def split: option.splits)

lemma recordSpending_spent:
  "spent (snd (recordSpending now e b)) = spent b + amount_value (se_amount e)"
  by (simp add: recordSpending_def Let_def amount_value_def split: option.splits)

lemma recordSpending_transactions:
  "map bt_amount (transactions (snd (recordSpending now e b)))
     = map bt_amount (transactions b) @ [se_amount e]"
  by (simp add: recordSpending_def Let_def split: option.splits)

lemma recordAll_total: "total (recordAll es b) = total b"
  by (induction es b rule: recordAll.induct) (simp_all add: recordSpending_total)

lemma recordAll_transactions:
  "map bt_amount (transactions (recordAll es b))
     = map bt_amount (transactions b) @ map (\<lambda>p. se_amount (snd p)) es"
  by (induction es b rule: recordAll.induct) (simp_all add: recordSpending_transactions)

lemma recorded_sum_amounts:
  "recorded_sum txs = sum_list (map amount_value (map bt_amount txs))"
  by (simp add: recorded_sum_def comp_def)

lemma recordAll_spent:
  "spent (recordAll es b) - recorded_sum (transactions (recordAll es b))
     = spent b - recorded_sum (transactions b)"
proof (induction es b rule: recordAll.induct)
  case (1 b)
  show ?case by simp
next
  case (2 now e es b)
  have "recorded_sum (transactions (snd (recordSpending now e b)))
          = recorded_sum (transactions b) + amount_value (se_amount e)"
    by (simp add: recorded_sum_amounts recordSpending_transactions)
  with 2 show ?case by (simp add: recordSpending_spent)
qed

text \<open>
  C5. After any sequence of \<open>recordSpending\<close> calls on a manager made by the constructor,
  \<open>spent\<close> is the integer sum of the amounts of the recorded transactions, which are the
  amounts of the calls in their order (an amount that \<open>BigInt\<close> rejects made its call raise
  and counts for nothing). \<open>getRemaining\<close> is \<open>total - spent\<close>, and the three strings of
  \<open>getState\<close> read back as \<open>total\<close>, \<open>spent\<close> and \<open>total - spent\<close>: the remaining value is
  computed from the two others each time.
\<close>

theorem budget_spent_is_sum_of_recorded:
  assumes "createBudgetManager totalBudget = Some b0" and "b = recordAll es b0"
  shows "getSpent b = recorded_sum (transactions b)
       \<and> map bt_amount (transactions b) = map (\<lambda>p. se_amount (snd p)) es
       \<and> BigInt totalBudget = Some (total b)
       \<and> getRemaining b = total b - getSpent b
       \<and> BigInt (bs_remaining (getState b)) = Some (total b - getSpent b)
       \<and> BigInt (bs_spent (getState b)) = Some (getSpent b)
       \<and> BigInt (bs_total (getState b)) = Some (total b)"
proof -
  from assms(1) obtain t where t: "BigInt totalBudget = Some t"
    and b0: "b0 = \<lparr>total = t, spent = 0, transactions = []\<rparr>"
    by (auto simp: createBudgetManager_def)
  have "spent b = recorded_sum (transactions b)"
    using recordAll_spent [of es b0] assms(2) b0 by (simp add: recorded_sum_def)
  moreover have "map bt_amount (transactions b) = map (\<lambda>p. se_amount (snd p)) es"
    using recordAll_transactions [of es b0] assms(2) b0 by simp
  moreover have "total b = t"
    using recordAll_total [of es b0] assms(2) b0 by simp
  ultimately show ?thesis
    using t by (simp add: getSpent_def getRemaining_def getState_def BigInt_toString)
qed

theorem budget_spent_is_sum_of_recorded_witness:
  "createBudgetManager ''500'' = Some \<lparr>total = 500, spent = 0, transactions = []\<rparr>
   \<and> getSpent (recordAll
        [(1, \<lparr>se_toolName = ''t'', se_serverUrl = ''u'', se_amount = ''300'', se_txHash = ''0xa''\<rparr>),
         (2, \<lparr>se_toolName = ''t'', se_serverUrl = ''u'', se_amount = ''450'', se_txHash = ''0xb''\<rparr>)]
        \<lparr>total = 500, spent = 0, transactions = []\<rparr>) = 750
   \<and> getRemaining (recordAll
        [(1, \<lparr>se_toolName = ''t'', se_serverUrl = ''u'', se_amount = ''300'', se_txHash = ''0xa''\<rparr>),
         (2, \<lparr>se_toolName = ''t'', se_serverUrl = ''u'', se_amount = ''450'', se_txHash = ''0xb''\<rparr>)]
        \<lparr>total = 500, spent = 0, transactions = []\<rparr>) = - 250"
proof -
  let ?b0 = "\<lparr>total = 500, spent = 0, transactions = []\<rparr>"
  let ?es = "[(1, \<lparr>se_toolName = ''t'', se_serverUrl = ''u'', se_amount = ''300'', se_txHash = ''0xa''\<rparr>),
         (2, \<lparr>se_toolName = ''t'', se_serverUrl = ''u'', se_amount = ''450'', se_txHash = ''0xb''\<rparr>)]"
  have h: "createBudgetManager ''500'' = Some ?b0" by code_simp
  have a: "recorded_sum (transactions (recordAll ?es ?b0)) = 750" by code_simp
  have t: "total (recordAll ?es ?b0) = 500" by code_simp
  from budget_spent_is_sum_of_recorded [OF h refl, of ?es]
  have "getSpent (recordAll ?es ?b0) = recorded_sum (transactions (recordAll ?es ?b0))"
    and "getRemaining (recordAll ?es ?b0) = total (recordAll ?es ?b0) - getSpent (recordAll ?es ?b0)"
    by blast+
  then have "getSpent (recordAll ?es ?b0) = 750" "getRemaining (recordAll ?es ?b0) = - 250"
    by (simp_all only: a t)
  with h show ?thesis by blast
qed

text \<open>
  C10. \<open>recordSpending\<close> has no ceiling. For every manager and every entry whose amount
  \<open>BigInt\<close> reads as \<open>a\<close>, the call returns and \<open>spent\<close> grows by exactly \<open>a\<close>; this is so also
  when \<open>canSpend\<close> answers false for that amount, that is when \<open>spent + a\<close> exceeds \<open>total\<close>,
  and then \<open>getRemaining\<close> is negative after the call.
\<close>

theorem recordSpending_no_ceiling:
  assumes "BigInt (se_amount e) = Some a"
  shows "fst (recordSpending now e b)
       \<and> getSpent (snd (recordSpending now e b)) = getSpent b + a
       \<and> (canSpend b (se_amount e) = Some False \<longleftrightarrow> total b < spent b + a)
       \<and> (total b < spent b + a \<longrightarrow> getRemaining (snd (recordSpending now e b)) < 0)"
  using assms by (auto simp: recordSpending_def Let_def getSpent_def getRemaining_def canSpend_def)

theorem recordSpending_no_ceiling_witness:
  "BigInt ''1000'' = Some 1000
   \<and> getSpent (snd (recordSpending 7
        \<lparr>se_toolName = ''t'', se_serverUrl = ''u'', se_amount = ''1000'', se_txHash = ''0xa''\<rparr>
        \<lparr>total = 500, spent = 0, transactions = []\<rparr>)) = 1000
   \<and> getRemaining (snd (recordSpending 7
        \<lparr>se_toolName = ''t'', se_serverUrl = ''u'', se_amount = ''1000'', se_txHash = ''0xa''\<rparr>
        \<lparr>total = 500, spent = 0, transactions = []\<rparr>)) < 0"
proof -
  let ?e = "\<lparr>se_toolName = ''t'', se_serverUrl = ''u'', se_amount = ''1000'', se_txHash = ''0xa''\<rparr>"
  let ?b = "\<lparr>total = 500, spent = 0, transactions = []\<rparr>"
  have h: "BigInt (se_amount ?e) = Some 1000" by code_simp
  from recordSpending_no_ceiling [OF h, of 7 ?b]
  have "getSpent (snd (recordSpending 7 ?e ?b)) = getSpent ?b + 1000"
    and "total ?b < spent ?b + 1000 \<longrightarrow> getRemaining (snd (recordSpending 7 ?e ?b)) < 0"
    by blast+
  moreover have "getSpent ?b = 0" by (simp add: getSpent_def)
  ultimately show ?thesis using h by simp
qed

section \<open>Properties of the facilitator client\<close>

lemma fetches_append [simp]: "fetches (a @ b) = fetches a @ fetches b"
  by (simp add: fetches_def)

lemma sleeps_append [simp]: "sleeps (a @ b) = sleeps a @ sleeps b"
  by (simp add: sleeps_def)

lemma invocations_append [simp]: "invocations (a @ b) = invocations a @ invocations b"
  by (simp add: invocations_def)

lemma fetches_Cons [simp]: "fetches [] = []" "fetches (Fetch rq # w) = rq # fetches w"
  "fetches (Sleep d # w) = fetches w" "fetches (Invoke n # w) = fetches w"
  by (simp_all add: fetches_def)

lemma sleeps_Cons [simp]: "sleeps [] = []" "sleeps (Fetch rq # w) = sleeps w"
  "sleeps (Sleep d # w) = d # sleeps w" "sleeps (Invoke n # w) = sleeps w"
  by (simp_all add: sleeps_def)

lemma invocations_Cons [simp]: "invocations [] = []" "invocations (Fetch rq # w) = invocations w"
  "invocations (Sleep d # w) = invocations w" "invocations (Invoke n # w) = n # invocations w"
  by (simp_all add: invocations_def)

text \<open>
  When every attempt fails and an attempt leaves one \<open>fetch\<close> in the trace, the helper runs
  the attempts that are left, waits \<open>delay * (k + 1)\<close> after the failure of attempt \<open>k\<close> unless it
  was the last, and throws.
\<close>

lemma retry_from_fail:
  assumes app: "\<And>w. snd (fn w) = w @ [Fetch rq]" and fail: "\<And>w. isl (fst (fn w))"
  shows "isl (fst (retry_from fn n d i le w))
       \<and> fetches (snd (retry_from fn n d i le w)) = fetches w @ replicate (n - i) rq
       \<and> sleeps (snd (retry_from fn n d i le w)) = sleeps w @ map (\<lambda>k. d * (k + 1)) [i..<n - 1]
       \<and> invocations (snd (retry_from fn n d i le w)) = invocations w"
  using app fail
proof (induction fn n d i le w rule: retry_from.induct)
  case (1 fn retries delay i lastError w)
  show ?case
  proof (cases "i < retries")
    case False
    then show ?thesis by (simp add: retry_from.simps [of fn retries delay i lastError w])
  next
    case True
    obtain e where f: "fn w = (Inl e, w @ [Fetch rq])"
      using 1(2) [of w] 1(3) [of w] by (cases "fn w") (auto simp: isl_def)
    let ?w' = "if int i < int retries - 1 then (w @ [Fetch rq]) @ [Sleep (delay * (i + 1))] else w @ [Fetch rq]"
    have step: "retry_from fn retries delay i lastError w
          = retry_from fn retries delay (i + 1) (Some (to_Error e)) ?w'"
      using True f by (subst retry_from.simps) simp
    have ih: "isl (fst (retry_from fn retries delay (i + 1) (Some (to_Error e)) ?w'))
       \<and> fetches (snd (retry_from fn retries delay (i + 1) (Some (to_Error e)) ?w')) = fetches ?w' @ replicate (retries - (i + 1)) rq
       \<and> sleeps (snd (retry_from fn retries delay (i + 1) (Some (to_Error e)) ?w')) = sleeps ?w' @ map (\<lambda>k. delay * (k + 1)) [i + 1..<retries - 1]
       \<and> invocations (snd (retry_from fn retries delay (i + 1) (Some (to_Error e)) ?w')) = invocations ?w'"
      using 1(1) [OF True f [symmetric] refl 1(2) 1(3)] by simp
    have r: "replicate (retries - i) rq = rq # replicate (retries - (i + 1)) rq"
      using True by (cases "retries - i") (auto simp: Suc_diff_Suc)
    show ?thesis
    proof (cases "int i < int retries - 1")
      case True
      then have "i < retries - Suc 0" by linarith
      then have u: "[i..<retries - Suc 0] = i # [Suc i..<retries - Suc 0]"
        by (simp add: upt_conv_Cons)
      from ih True show ?thesis unfolding step by (simp add: r u)
    next
      case False
      then have "[i..<retries - 1] = []" "[i + 1..<retries - 1] = []" by auto
      with ih False show ?thesis unfolding step by (simp add: r)
    qed
  qed
qed

text \<open>Whatever the attempts answer, the helper adds only their fetches and its own waits.\<close>

lemma retry_from_trace:
  assumes app: "\<And>w. snd (fn w) = w @ [Fetch rq]"
  shows "\<exists>evs. snd (retry_from fn n d i le w) = w @ evs
           \<and> (\<forall>e\<in>set evs. e = Fetch rq \<or> (\<exists>k. e = Sleep k))
           \<and> (\<forall>v. fst (retry_from fn n d i le w) = Inr v \<longrightarrow> evs \<noteq> [] \<and> last evs = Fetch rq)"
  using app
proof (induction fn n d i le w rule: retry_from.induct)
  case (1 fn retries delay i lastError w)
  show ?case
  proof (cases "i < retries")
    case False
    then show ?thesis by (simp add: retry_from.simps [of fn retries delay i lastError w])
  next
    case True
    note lt = this
    obtain res where f: "fn w = (res, w @ [Fetch rq])"
      using 1(2) [of w] by (cases "fn w") auto
    show ?thesis
    proof (cases res)
      case (Inr v)
      with f lt show ?thesis
        by (simp add: retry_from.simps [of fn retries delay i lastError w])
    next
      case (Inl e)
      let ?w' = "if int i < int retries - 1 then (w @ [Fetch rq]) @ [Sleep (delay * (i + 1))] else w @ [Fetch rq]"
      let ?r = "retry_from fn retries delay (i + 1) (Some (to_Error e)) ?w'"
      have step: "retry_from fn retries delay i lastError w = ?r"
        using lt f Inl by (subst retry_from.simps) simp
      from 1(1) [OF lt f [symmetric] Inl 1(2)]
      obtain evs where evs: "snd ?r = ?w' @ evs"
          "\<forall>e\<in>set evs. e = Fetch rq \<or> (\<exists>k. e = Sleep k)"
          "\<forall>v. fst ?r = Inr v \<longrightarrow> evs \<noteq> [] \<and> last evs = Fetch rq"
        by auto
      let ?pre = "if int i < int retries - 1 then [Fetch rq, Sleep (delay * (i + 1))] else [Fetch rq]"
      have "snd ?r = w @ (?pre @ evs)" using evs(1) by simp
      moreover have "\<forall>e\<in>set (?pre @ evs). e = Fetch rq \<or> (\<exists>k. e = Sleep k)"
        using evs(2) by auto
      moreover have "\<forall>v. fst ?r = Inr v \<longrightarrow> ?pre @ evs \<noteq> [] \<and> last (?pre @ evs) = Fetch rq"
        using evs(3) by auto
      ultimately show ?thesis unfolding step by blast
    qed
  qed
qed

lemma retry_first_returns:
  assumes "fn w = (Inr v, w')" and "0 < n"
  shows "retry fn n w = (Inr v, w')"
  using assms by (simp add: retry_def retry_from.simps [of fn n 1000 0 None w])

lemma verify_attempt_trace [simp]: "snd (verify_attempt E rq w) = w @ [Fetch rq]"
  by (simp add: verify_attempt_def split: sum.splits)

lemma settle_attempt_trace [simp]: "snd (settle_attempt E rq w) = w @ [Fetch rq]"
  by (simp add: settle_attempt_def split: sum.splits)

lemma verify_attempt_fails:
  "transport_fails E rq \<Longrightarrow> isl (fst (verify_attempt E rq w))"
  unfolding transport_fails_def verify_attempt_def
  by (cases "fetch E w rq") (auto dest: spec [of _ w])

lemma settle_attempt_fails:
  "transport_fails E rq \<Longrightarrow> isl (fst (settle_attempt E rq w))"
  unfolding transport_fails_def settle_attempt_def
  by (cases "fetch E w rq") (auto dest: spec [of _ w])

lemma quiet_events:
  "\<forall>e\<in>set evs. e = Fetch rq \<or> (\<exists>k. e = Sleep k) \<Longrightarrow> invocations evs = []"
  by (induction evs) auto

lemma quiet_fetches:
  "\<forall>e\<in>set evs. e = Fetch rq \<or> (\<exists>k. e = Sleep k) \<Longrightarrow> set (fetches evs) \<subseteq> {rq}"
  by (induction evs) auto

lemma verify_trace:
  "\<exists>evs. snd (verify E c hdr reqs w) = w @ evs
     \<and> (\<forall>e\<in>set evs. e = Fetch (verify_request c hdr reqs) \<or> (\<exists>k. e = Sleep k))
     \<and> (\<forall>v. fst (verify E c hdr reqs w) = Inr v \<longrightarrow>
           evs \<noteq> [] \<and> last evs = Fetch (verify_request c hdr reqs))"
  unfolding verify_def retry_def by (rule retry_from_trace) simp

lemma settle_trace:
  "\<exists>evs. snd (settle E c hdr reqs w) = w @ evs
     \<and> (\<forall>e\<in>set evs. e = Fetch (settle_request c hdr reqs) \<or> (\<exists>k. e = Sleep k))
     \<and> (\<forall>v. fst (settle E c hdr reqs w) = Inr v \<longrightarrow>
           evs \<noteq> [] \<and> last evs = Fetch (settle_request c hdr reqs))"
  unfolding settle_def retry_def by (rule retry_from_trace) simp

lemma verify_invocations: "invocations (snd (verify E c hdr reqs w)) = invocations w"
  using verify_trace [of E c hdr reqs w] by (auto simp: quiet_events)

lemma settle_invocations: "invocations (snd (settle E c hdr reqs w)) = invocations w"
  using settle_trace [of E c hdr reqs w] by (auto simp: quiet_events)

lemma verify_no_settle_call:
  "settle_calls c (snd (verify E c hdr reqs w)) = settle_calls c w"
proof -
  from verify_trace [of E c hdr reqs w] obtain evs where
    evs: "snd (verify E c hdr reqs w) = w @ evs"
      "\<forall>e\<in>set evs. e = Fetch (verify_request c hdr reqs) \<or> (\<exists>k. e = Sleep k)"
    by blast
  have "rq_url (verify_request c hdr reqs) \<noteq> baseUrl c @ FACILITATOR_ENDPOINTS_SETTLE"
    by (simp add: verify_request_def FACILITATOR_ENDPOINTS_VERIFY_def FACILITATOR_ENDPOINTS_SETTLE_def)
  with quiet_fetches [OF evs(2)] have "filter (\<lambda>rq. rq_url rq = baseUrl c @ FACILITATOR_ENDPOINTS_SETTLE) (fetches evs) = []"
    by (auto simp: filter_empty_conv)
  with evs(1) show ?thesis by (simp add: settle_calls_def)
qed

text \<open>The example environments.\<close>

lemma verify_answers:
  "0 < retries c \<Longrightarrow>
     verify (facilitator_answers v d) c hdr reqs w
       = (Inr (Some v), w @ [Fetch (verify_request c hdr reqs)])"
  unfolding verify_def
  by (rule retry_first_returns) (simp_all add: verify_attempt_def facilitator_answers_def)

lemma settle_answers:
  "0 < retries c \<Longrightarrow>
     settle (facilitator_answers v d) c hdr reqs w
       = (Inr (map_settle d), w @ [Fetch (settle_request c hdr reqs)])"
  unfolding settle_def
  by (rule retry_first_returns) (simp_all add: settle_attempt_def facilitator_answers_def)

lemma example_retries: "0 < retries (facilitator (paymentHandler example_server))"
  by (simp add: example_server_def createPaymentHandler_def new_FacilitatorClient_def)

lemma example_header: "ctx_headers (example_call h) ''x-payment'' = h"
  by (simp add: example_call_def)

lemma example_price: "BigInt (tool_price example_tool) = Some 1000"
  by code_simp

lemma facilitator_down_fails: "transport_fails facilitator_down rq"
  by (simp add: transport_fails_def facilitator_down_def)

text \<open>
  The waits \<open>1000 * (k + 1)\<close> for \<open>k = 0, ..., n - 2\<close> are the powers \<open>1000 * 2 ^ k\<close> exactly
  when \<open>n \<le> 3\<close>: 1000 and 2000 are both, 3000 is not 4000.
\<close>

lemma linear_is_exponential_upto_3:
  "exponential_backoff 1000 2 (map (\<lambda>k. 1000 * (k + 1)) [0..<n - 1]) \<longleftrightarrow> n \<le> 3"
proof -
  have "exponential_backoff 1000 2 (map (\<lambda>k. 1000 * (k + 1)) [0..<n - 1])
          \<longleftrightarrow> (\<forall>k\<in>set [0..<n - 1]. 1000 * (k + 1) = (1000::nat) * 2 ^ k)"
    unfolding exponential_backoff_def by (simp only: length_map length_upt diff_zero map_eq_conv)
  also have "\<dots> \<longleftrightarrow> (\<forall>k<n - 1. k + 1 = (2::nat) ^ k)"
  proof -
    have eq: "(1000 * (k + 1) = (1000::nat) * 2 ^ k) = (k + 1 = 2 ^ k)" for k :: nat
      by (simp only: mult_cancel_left) simp
    show ?thesis by (simp only: eq set_upt Ball_def atLeastLessThan_iff le0 simp_thms)
  qed
  also have "\<dots> \<longleftrightarrow> n \<le> 3"
  proof
    assume a: "\<forall>k<n - 1. k + 1 = (2::nat) ^ k"
    show "n \<le> 3"
    proof (rule ccontr)
      assume "\<not> n \<le> 3"
      then have "(2::nat) < n - 1" by simp
      from a [rule_format, OF this] show False by simp
    qed
  next
    assume n: "n \<le> 3"
    show "\<forall>k<n - 1. k + 1 = (2::nat) ^ k"
    proof (intro allI impI)
      fix k assume "k < n - 1"
      with n have "k = 0 \<or> k = 1" by linarith
      then show "k + 1 = (2::nat) ^ k" by (elim disjE) simp_all
    qed
  qed
  finally show ?thesis .
qed

text \<open>
  C8, as amended. On transport-level failure of a facilitator call the waits between the
  attempts grow linearly: the wait after failed attempt \<open>k\<close> (counted from 0, the last attempt
  excepted) is \<open>1000 * (k + 1)\<close> milliseconds, for \<open>verify\<close> and for \<open>settle\<close>. These waits are
  an exponential backoff with base 1000 and multiplier 2 exactly when the client has at
  most 3 attempts.
\<close>

theorem facilitator_backoff_is_linear:
  "(transport_fails E (verify_request c hdr reqs) \<longrightarrow>
      sleeps (snd (verify E c hdr reqs w))
        = sleeps w @ map (\<lambda>k. 1000 * (k + 1)) [0..<retries c - 1])
   \<and> (transport_fails E (settle_request c hdr reqs) \<longrightarrow>
      sleeps (snd (settle E c hdr reqs w))
        = sleeps w @ map (\<lambda>k. 1000 * (k + 1)) [0..<retries c - 1])
   \<and> (exponential_backoff 1000 2 (map (\<lambda>k. 1000 * (k + 1)) [0..<retries c - 1])
        \<longleftrightarrow> retries c \<le> 3)"
proof (intro conjI impI)
  assume t: "transport_fails E (verify_request c hdr reqs)"
  from retry_from_fail [of "verify_attempt E (verify_request c hdr reqs)" "verify_request c hdr reqs"
      "retries c" 1000 0 None w]
  show "sleeps (snd (verify E c hdr reqs w)) = sleeps w @ map (\<lambda>k. 1000 * (k + 1)) [0..<retries c - 1]"
    using verify_attempt_fails [OF t] by (simp add: verify_def retry_def)
next
  assume t: "transport_fails E (settle_request c hdr reqs)"
  from retry_from_fail [of "settle_attempt E (settle_request c hdr reqs)" "settle_request c hdr reqs"
      "retries c" 1000 0 None w]
  show "sleeps (snd (settle E c hdr reqs w)) = sleeps w @ map (\<lambda>k. 1000 * (k + 1)) [0..<retries c - 1]"
    using settle_attempt_fails [OF t] by (simp add: settle_def retry_def)
next
  show "exponential_backoff 1000 2 (map (\<lambda>k. 1000 * (k + 1)) [0..<retries c - 1]) \<longleftrightarrow> retries c \<le> 3"
    by (rule linear_is_exponential_upto_3)
qed

theorem facilitator_backoff_is_linear_witness:
  "transport_fails facilitator_down
     (verify_request (new_FacilitatorClient None None (Some 5)) ''eyJ4IjoxfQ==''
        (createPaymentRequirements (paymentHandler example_server) example_tool ''tool://get_ohlcv''))
   \<and> sleeps (snd (verify facilitator_down (new_FacilitatorClient None None (Some 5)) ''eyJ4IjoxfQ==''
        (createPaymentRequirements (paymentHandler example_server) example_tool ''tool://get_ohlcv'') []))
       = [1000, 2000, 3000, 4000]"
proof -
  let ?c = "new_FacilitatorClient None None (Some 5)"
  let ?r = "createPaymentRequirements (paymentHandler example_server) example_tool ''tool://get_ohlcv''"
  have h: "transport_fails facilitator_down (verify_request ?c ''eyJ4IjoxfQ=='' ?r)"
    by (rule facilitator_down_fails)
  have r: "retries ?c = 5" by (simp add: new_FacilitatorClient_def)
  have m: "map (\<lambda>k. 1000 * (k + 1)) [0..<5 - 1] = [1000, 2000, 3000, 4000::nat]" by code_simp
  from facilitator_backoff_is_linear [of facilitator_down ?c "''eyJ4IjoxfQ==''" ?r "[]",
      THEN conjunct1, THEN mp, OF h]
  have "sleeps (snd (verify facilitator_down ?c ''eyJ4IjoxfQ=='' ?r []))
          = sleeps [] @ map (\<lambda>k. 1000 * (k + 1)) [0..<retries ?c - 1]" .
  then have "sleeps (snd (verify facilitator_down ?c ''eyJ4IjoxfQ=='' ?r [])) = [1000, 2000, 3000, 4000]"
    by (simp only: r m sleeps_Cons append_Nil)
  with h show ?thesis by (rule conjI)
qed

text \<open>
  C8 as stated fails for 4 attempts: the waits are 1000, 2000, 3000, which no base and
  multiplier produce.
\<close>

theorem facilitator_backoff_counterexample:
  "sleeps (snd (verify facilitator_down (new_FacilitatorClient None None (Some 4)) ''eyJ4IjoxfQ==''
        (createPaymentRequirements (paymentHandler example_server) example_tool ''tool://get_ohlcv'') []))
     = [1000, 2000, 3000]
   \<and> \<not> (\<exists>base m. exponential_backoff base m
        (sleeps (snd (verify facilitator_down (new_FacilitatorClient None None (Some 4)) ''eyJ4IjoxfQ==''
          (createPaymentRequirements (paymentHandler example_server) example_tool ''tool://get_ohlcv'') []))))"
proof -
  let ?c = "new_FacilitatorClient None None (Some 4)"
  let ?r = "createPaymentRequirements (paymentHandler example_server) example_tool ''tool://get_ohlcv''"
  have r: "retries ?c = 4" by (simp add: new_FacilitatorClient_def)
  have m: "map (\<lambda>k. 1000 * (k + 1)) [0..<4 - 1] = [1000, 2000, 3000::nat]" by code_simp
  from retry_from_fail [of "verify_attempt facilitator_down (verify_request ?c ''eyJ4IjoxfQ=='' ?r)"
      "verify_request ?c ''eyJ4IjoxfQ=='' ?r" "retries ?c" 1000 0 None "[]"]
  have "sleeps (snd (verify facilitator_down ?c ''eyJ4IjoxfQ=='' ?r []))
          = sleeps [] @ map (\<lambda>k. 1000 * (k + 1)) [0..<retries ?c - 1]"
    using verify_attempt_fails [OF facilitator_down_fails]
    by (simp add: verify_def retry_def)
  then have s: "sleeps (snd (verify facilitator_down ?c ''eyJ4IjoxfQ=='' ?r [])) = [1000, 2000, 3000]"
    by (simp only: r m sleeps_Cons append_Nil)
  have "\<not> exponential_backoff base m [1000, 2000, 3000]" for base m
  proof
    assume a: "exponential_backoff base m [1000, 2000, 3000]"
    have u: "[0..<length [1000::nat, 2000, 3000]] = [0, 1, 2]" by code_simp
    from a have "[1000, 2000, 3000] = map (\<lambda>k. base * m ^ k) [0, 1, 2]"
      by (simp only: exponential_backoff_def u)
    then have "1000 = base * m ^ 0 \<and> 2000 = base * m ^ 1 \<and> 3000 = base * m ^ 2"
      by (simp only: list.map list.inject simp_thms)
    then have b: "base = 1000" and l: "2000 = base * m" and sq: "3000 = base * m ^ 2"
      by (simp_all only: power_0 power_one_right mult_1_right)
    from l have "1000 * 2 = 1000 * m" unfolding b by (simp only: numeral_times_numeral) simp
    then have "m = 2" by (simp only: mult_cancel_left) simp
    with sq show False unfolding b by simp
  qed
  with s show ?thesis by simp
qed

section \<open>The retry bound\<close>

lemma fetches_failed_attempts: "fetches (failed_attempts rq d i n) = replicate (n - 1 - i) rq"
proof -
  have "fetches (concat (map (\<lambda>k. [Fetch rq, Sleep (d * (k + 1))]) ks)) = replicate (length ks) rq" for ks
    by (induction ks) (simp_all add: fetches_def)
  then show ?thesis by (simp add: failed_attempts_def)
qed

lemma failed_attempts_step:
  "i < n - 1 \<Longrightarrow> failed_attempts rq d i n = Fetch rq # Sleep (d * (i + 1)) # failed_attempts rq d (i + 1) n"
  by (simp add: failed_attempts_def upt_conv_Cons)

lemma failed_attempts_done: "n - 1 \<le> i \<Longrightarrow> failed_attempts rq d i n = []"
  by (simp add: failed_attempts_def)

text \<open>
  When every attempt fails, the helper throws what the last attempt threw (made an
  \<open>Error\<close> if it was not one), and the trace is the failed attempts with their waits and
  then the last attempt.
\<close>

lemma retry_from_all_fail:
  assumes app: "\<And>w. snd (fn w) = w @ [Fetch rq]" and fail: "\<And>w. isl (fst (fn w))"
    and lt: "i < n"
  shows "retry_from fn n d i le w
           = (Inl (to_Error (projl (fst (fn (w @ failed_attempts rq d i n))))),
              w @ failed_attempts rq d i n @ [Fetch rq])"
  using app fail lt
proof (induction fn n d i le w rule: retry_from.induct)
  case (1 fn retries delay i lastError w)
  obtain e where f: "fn w = (Inl e, w @ [Fetch rq])"
    using 1(2) [of w] 1(3) [of w] by (cases "fn w") (auto simp: isl_def)
  let ?w' = "if int i < int retries - 1 then (w @ [Fetch rq]) @ [Sleep (delay * (i + 1))] else w @ [Fetch rq]"
  have step: "retry_from fn retries delay i lastError w
        = retry_from fn retries delay (i + 1) (Some (to_Error e)) ?w'"
    using 1(4) f by (subst retry_from.simps) simp
  show ?case
  proof (cases "i + 1 < retries")
    case True
    then have more: "int i < int retries - 1" and more': "i < retries - 1" by linarith+
    have "retry_from fn retries delay (i + 1) (Some (to_Error e)) ?w'
            = (Inl (to_Error (projl (fst (fn (?w' @ failed_attempts rq delay (i + 1) retries))))),
               ?w' @ failed_attempts rq delay (i + 1) retries @ [Fetch rq])"
      by (rule 1(1) [OF 1(4) f [symmetric] refl 1(2) 1(3) True])
    then show ?thesis
      unfolding step using more by (simp add: failed_attempts_step [OF more'])
  next
    case False
    then have last: "\<not> int i < int retries - 1" and fin: "retries - 1 \<le> i" by linarith+
    have stop: "retry_from fn retries delay (i + 1) (Some (to_Error e)) (w @ [Fetch rq])
                  = (Inl (to_Error e), w @ [Fetch rq])"
      using False by (subst retry_from.simps) simp
    show ?thesis
      unfolding step using last f stop by (simp add: failed_attempts_done [OF fin])
  qed
qed

lemma retry_none: "retry fn 0 w = (Inl Undefined, w)"
  by (simp add: retry_def retry_from.simps [of fn 0])

text \<open>What a failing attempt throws, read from what \<open>fetch\<close> answers.\<close>

lemma verify_attempt_error:
  "transport_fails E rq \<Longrightarrow>
     to_Error (projl (fst (verify_attempt E rq w)))
       = (case fetch E w rq of
            Inl (Error m) \<Rightarrow> Error m
          | Inl Undefined \<Rightarrow> Error ''undefined''
          | Inr r \<Rightarrow> Error (''Verify failed: '' @ nat_toString (resp_status r) @ '' - '' @ resp_text r))"
  unfolding transport_fails_def verify_attempt_def
  by (cases "fetch E w rq") (auto dest: spec [of _ w] simp: to_Error_def split: js_error.splits)

lemma settle_attempt_error:
  "transport_fails E rq \<Longrightarrow>
     to_Error (projl (fst (settle_attempt E rq w)))
       = (case fetch E w rq of
            Inl (Error m) \<Rightarrow> Error m
          | Inl Undefined \<Rightarrow> Error ''undefined''
          | Inr r \<Rightarrow> Error (''Settle failed: '' @ nat_toString (resp_status r) @ '' - '' @ resp_text r))"
  unfolding transport_fails_def settle_attempt_def
  by (cases "fetch E w rq") (auto dest: spec [of _ w] simp: to_Error_def split: js_error.splits)

lemma verify_all_fail:
  assumes "transport_fails E (verify_request c hdr reqs)" and "0 < retries c"
  shows "verify E c hdr reqs w
     = (Inl (case fetch E (w @ failed_attempts (verify_request c hdr reqs) 1000 0 (retries c))
                    (verify_request c hdr reqs) of
               Inl (Error m) \<Rightarrow> Error m
             | Inl Undefined \<Rightarrow> Error ''undefined''
             | Inr r \<Rightarrow> Error (''Verify failed: '' @ nat_toString (resp_status r) @ '' - '' @ resp_text r)),
        w @ failed_attempts (verify_request c hdr reqs) 1000 0 (retries c)
          @ [Fetch (verify_request c hdr reqs)])"
  unfolding verify_def retry_def
  by (subst retry_from_all_fail [where rq = "verify_request c hdr reqs"])
     (simp_all add: assms verify_attempt_fails verify_attempt_error)

lemma settle_all_fail:
  assumes "transport_fails E (settle_request c hdr reqs)" and "0 < retries c"
  shows "settle E c hdr reqs w
     = (Inl (case fetch E (w @ failed_attempts (settle_request c hdr reqs) 1000 0 (retries c))
                    (settle_request c hdr reqs) of
               Inl (Error m) \<Rightarrow> Error m
             | Inl Undefined \<Rightarrow> Error ''undefined''
             | Inr r \<Rightarrow> Error (''Settle failed: '' @ nat_toString (resp_status r) @ '' - '' @ resp_text r)),
        w @ failed_attempts (settle_request c hdr reqs) 1000 0 (retries c)
          @ [Fetch (settle_request c hdr reqs)])"
  unfolding settle_def retry_def
  by (subst retry_from_all_fail [where rq = "settle_request c hdr reqs"])
     (simp_all add: assms settle_attempt_fails settle_attempt_error)

lemma failed_attempts_3: "failed_attempts rq 1000 0 3 = [Fetch rq, Sleep 1000, Fetch rq, Sleep 2000]"
proof -
  have "[0..<3 - 1] = [0, 1::nat]" by code_simp
  then show ?thesis by (simp add: failed_attempts_def)
qed

text \<open>
  C3. A client configured with \<open>retries c\<close> attempts, at least one. When the verify request
  fails at the transport level however often it is sent (the \<open>fetch\<close> rejects or the status
  is not ok), \<open>verify\<close> sends it exactly \<open>retries c\<close> times, waiting between the attempts, and
  then throws the error of the last attempt: what \<open>fetch\<close> rejected with (made an \<open>Error\<close> if
  it was not one), or \<open>Verify failed: <status> - <text>\<close> for a status that is not ok. The
  same holds for \<open>settle\<close>. The source has no error of its own for a facilitator that cannot
  be reached. When the first attempt gets a well-formed rejection (a verify answer with
  \<open>isValid = false\<close>, a settle answer with event \<open>payment.failed\<close>), the call returns it after
  that one request, with its reason, and nothing is retried.
\<close>

theorem retry_rethrows_last_error:
  "(transport_fails E (verify_request c hdr reqs) \<and> 0 < retries c \<longrightarrow>
      verify E c hdr reqs w
        = (Inl (case fetch E (w @ failed_attempts (verify_request c hdr reqs) 1000 0 (retries c))
                       (verify_request c hdr reqs) of
                  Inl (Error m) \<Rightarrow> Error m
                | Inl Undefined \<Rightarrow> Error ''undefined''
                | Inr r \<Rightarrow> Error (''Verify failed: '' @ nat_toString (resp_status r) @ '' - ''
                                     @ resp_text r)),
           w @ failed_attempts (verify_request c hdr reqs) 1000 0 (retries c)
             @ [Fetch (verify_request c hdr reqs)])
      \<and> fetches (snd (verify E c hdr reqs w))
          = fetches w @ replicate (retries c) (verify_request c hdr reqs))
   \<and> (transport_fails E (settle_request c hdr reqs) \<and> 0 < retries c \<longrightarrow>
      settle E c hdr reqs w
        = (Inl (case fetch E (w @ failed_attempts (settle_request c hdr reqs) 1000 0 (retries c))
                       (settle_request c hdr reqs) of
                  Inl (Error m) \<Rightarrow> Error m
                | Inl Undefined \<Rightarrow> Error ''undefined''
                | Inr r \<Rightarrow> Error (''Settle failed: '' @ nat_toString (resp_status r) @ '' - ''
                                     @ resp_text r)),
           w @ failed_attempts (settle_request c hdr reqs) 1000 0 (retries c)
             @ [Fetch (settle_request c hdr reqs)])
      \<and> fetches (snd (settle E c hdr reqs w))
          = fetches w @ replicate (retries c) (settle_request c hdr reqs))
   \<and> (0 < retries c \<and> fetch E w (verify_request c hdr reqs) = Inr response \<and> resp_ok response
        \<and> JSON_parse_verify E (resp_text response) = Inr (Some v) \<and> \<not> isValid v \<longrightarrow>
      verify E c hdr reqs w = (Inr (Some v), w @ [Fetch (verify_request c hdr reqs)]))
   \<and> (0 < retries c \<and> fetch E w (settle_request c hdr reqs) = Inr response \<and> resp_ok response
        \<and> JSON_parse_settle E (resp_text response) = Inr d \<and> sd_event d = Some ''payment.failed'' \<longrightarrow>
      settle E c hdr reqs w = (Inr (map_settle d), w @ [Fetch (settle_request c hdr reqs)])
      \<and> \<not> success (map_settle d) \<and> sr_errorReason (map_settle d) = sd_error d)"
proof (intro conjI impI)
  assume t: "transport_fails E (verify_request c hdr reqs) \<and> 0 < retries c"
  then have n: "Suc (retries c - Suc 0) = retries c" by simp
  from t show v: "verify E c hdr reqs w
        = (Inl (case fetch E (w @ failed_attempts (verify_request c hdr reqs) 1000 0 (retries c))
                       (verify_request c hdr reqs) of
                  Inl (Error m) \<Rightarrow> Error m
                | Inl Undefined \<Rightarrow> Error ''undefined''
                | Inr r \<Rightarrow> Error (''Verify failed: '' @ nat_toString (resp_status r) @ '' - ''
                                     @ resp_text r)),
           w @ failed_attempts (verify_request c hdr reqs) 1000 0 (retries c)
             @ [Fetch (verify_request c hdr reqs)])"
    by (intro verify_all_fail) simp_all
  show "fetches (snd (verify E c hdr reqs w))
          = fetches w @ replicate (retries c) (verify_request c hdr reqs)"
    using n
    by (simp only: v snd_conv fetches_append fetches_failed_attempts fetches_Cons diff_zero)
       (metis One_nat_def append_Nil2 replicate_Suc replicate_append_same)
next
  assume t: "transport_fails E (settle_request c hdr reqs) \<and> 0 < retries c"
  then have n: "Suc (retries c - Suc 0) = retries c" by simp
  from t show v: "settle E c hdr reqs w
        = (Inl (case fetch E (w @ failed_attempts (settle_request c hdr reqs) 1000 0 (retries c))
                       (settle_request c hdr reqs) of
                  Inl (Error m) \<Rightarrow> Error m
                | Inl Undefined \<Rightarrow> Error ''undefined''
                | Inr r \<Rightarrow> Error (''Settle failed: '' @ nat_toString (resp_status r) @ '' - ''
                                     @ resp_text r)),
           w @ failed_attempts (settle_request c hdr reqs) 1000 0 (retries c)
             @ [Fetch (settle_request c hdr reqs)])"
    by (intro settle_all_fail) simp_all
  show "fetches (snd (settle E c hdr reqs w))
          = fetches w @ replicate (retries c) (settle_request c hdr reqs)"
    using n
    by (simp only: v snd_conv fetches_append fetches_failed_attempts fetches_Cons diff_zero)
       (metis One_nat_def append_Nil2 replicate_Suc replicate_append_same)
next
  assume a: "0 < retries c \<and> fetch E w (verify_request c hdr reqs) = Inr response \<and> resp_ok response
        \<and> JSON_parse_verify E (resp_text response) = Inr (Some v) \<and> \<not> isValid v"
  then have "verify_attempt E (verify_request c hdr reqs) w
               = (Inr (Some v), w @ [Fetch (verify_request c hdr reqs)])"
    by (simp add: verify_attempt_def)
  with a show "verify E c hdr reqs w = (Inr (Some v), w @ [Fetch (verify_request c hdr reqs)])"
    unfolding verify_def by (intro retry_first_returns) auto
next
  assume a: "0 < retries c \<and> fetch E w (settle_request c hdr reqs) = Inr response \<and> resp_ok response
        \<and> JSON_parse_settle E (resp_text response) = Inr d \<and> sd_event d = Some ''payment.failed''"
  then have "settle_attempt E (settle_request c hdr reqs) w
               = (Inr (map_settle d), w @ [Fetch (settle_request c hdr reqs)])"
    by (simp add: settle_attempt_def)
  with a show "settle E c hdr reqs w = (Inr (map_settle d), w @ [Fetch (settle_request c hdr reqs)])"
    unfolding settle_def by (intro retry_first_returns) auto
  from a show "\<not> success (map_settle d)" by (simp add: map_settle_def)
  show "sr_errorReason (map_settle d) = sd_error d" by (simp add: map_settle_def)
qed

theorem retry_rethrows_last_error_witness:
  "transport_fails facilitator_down
     (verify_request (facilitator (paymentHandler example_server)) ''eyJ4IjoxfQ==''
        (createPaymentRequirements (paymentHandler example_server) example_tool ''tool://get_ohlcv''))
   \<and> retries (facilitator (paymentHandler example_server)) = 3
   \<and> verify facilitator_down (facilitator (paymentHandler example_server))
        ''eyJ4IjoxfQ=='' (createPaymentRequirements (paymentHandler example_server) example_tool
        ''tool://get_ohlcv'') []
       = (Inl (Error ''fetch failed''),
          [Fetch (verify_request (facilitator (paymentHandler example_server)) ''eyJ4IjoxfQ==''
             (createPaymentRequirements (paymentHandler example_server) example_tool ''tool://get_ohlcv'')),
           Sleep 1000,
           Fetch (verify_request (facilitator (paymentHandler example_server)) ''eyJ4IjoxfQ==''
             (createPaymentRequirements (paymentHandler example_server) example_tool ''tool://get_ohlcv'')),
           Sleep 2000,
           Fetch (verify_request (facilitator (paymentHandler example_server)) ''eyJ4IjoxfQ==''
             (createPaymentRequirements (paymentHandler example_server) example_tool ''tool://get_ohlcv''))])
   \<and> length (fetches (snd (settle facilitator_down (facilitator (paymentHandler example_server))
        ''eyJ4IjoxfQ=='' (createPaymentRequirements (paymentHandler example_server) example_tool
        ''tool://get_ohlcv'') []))) = 3
   \<and> length (fetches (snd (verify (facilitator_answers answer_invalid_signature answer_failed)
        (facilitator (paymentHandler example_server))
        ''eyJ4IjoxfQ=='' (createPaymentRequirements (paymentHandler example_server) example_tool
        ''tool://get_ohlcv'') []))) = 1
   \<and> length (fetches (snd (settle (facilitator_answers answer_invalid_signature answer_failed)
        (facilitator (paymentHandler example_server))
        ''eyJ4IjoxfQ=='' (createPaymentRequirements (paymentHandler example_server) example_tool
        ''tool://get_ohlcv'') []))) = 1"
proof -
  let ?D = "facilitator_down"
  let ?E = "facilitator_answers answer_invalid_signature answer_failed"
  let ?hdr = "''eyJ4IjoxfQ==''"
  let ?c = "facilitator (paymentHandler example_server)"
  let ?reqs = "createPaymentRequirements (paymentHandler example_server) example_tool ''tool://get_ohlcv''"
  let ?resp = "\<lparr>resp_ok = True, resp_status = 200, resp_text = ''{}''\<rparr>"
  have n: "retries ?c = 3"
    by (simp add: example_server_def createPaymentHandler_def new_FacilitatorClient_def)
  have d1: "transport_fails ?D (verify_request ?c ?hdr ?reqs)"
    and d2: "transport_fails ?D (settle_request ?c ?hdr ?reqs)"
    by (rule facilitator_down_fails)+
  from d1 n have d1': "transport_fails ?D (verify_request ?c ?hdr ?reqs) \<and> 0 < retries ?c" by simp
  from d2 n have d2': "transport_fails ?D (settle_request ?c ?hdr ?reqs) \<and> 0 < retries ?c" by simp
  have r1: "0 < retries ?c \<and> fetch ?E [] (verify_request ?c ?hdr ?reqs) = Inr ?resp \<and> resp_ok ?resp
        \<and> JSON_parse_verify ?E (resp_text ?resp) = Inr (Some answer_invalid_signature)
        \<and> \<not> isValid answer_invalid_signature"
    by (simp add: n facilitator_answers_def answer_invalid_signature_def)
  have r2: "0 < retries ?c \<and> fetch ?E [] (settle_request ?c ?hdr ?reqs) = Inr ?resp \<and> resp_ok ?resp
        \<and> JSON_parse_settle ?E (resp_text ?resp) = Inr answer_failed
        \<and> sd_event answer_failed = Some ''payment.failed''"
    by (simp add: n facilitator_answers_def answer_failed_def)
  have f: "fetch ?D w rq = Inl (Error ''fetch failed'')" for w rq
    by (simp add: facilitator_down_def)
  note td = retry_rethrows_last_error [of ?D ?c ?hdr ?reqs "[]"]
  note te = retry_rethrows_last_error [of ?E ?c ?hdr ?reqs "[]" ?resp answer_invalid_signature answer_failed]
  from td [THEN conjunct1, rule_format, OF d1', THEN conjunct1]
  have a: "verify ?D ?c ?hdr ?reqs []
       = (Inl (Error ''fetch failed''),
          [Fetch (verify_request ?c ?hdr ?reqs), Sleep 1000, Fetch (verify_request ?c ?hdr ?reqs),
           Sleep 2000, Fetch (verify_request ?c ?hdr ?reqs)])"
    by (simp only: n f failed_attempts_3 sum.case js_error.case append_Nil append_Cons)
  from td [THEN conjunct2, THEN conjunct1, rule_format, OF d2', THEN conjunct2]
  have b: "length (fetches (snd (settle ?D ?c ?hdr ?reqs []))) = 3"
    by (simp add: n)
  from te [THEN conjunct2, THEN conjunct2, THEN conjunct1, rule_format, OF r1]
  have c: "length (fetches (snd (verify ?E ?c ?hdr ?reqs []))) = 1"
    by simp
  from te [THEN conjunct2, THEN conjunct2, THEN conjunct2, rule_format, OF r2, THEN conjunct1]
  have d: "length (fetches (snd (settle ?E ?c ?hdr ?reqs []))) = 1"
    by simp
  from d1 n a b c d show ?thesis by (intro conjI)
qed

text \<open>
  The claim of C3 as it is written fails. What the client throws after its last attempt
  is not an error of its own but what that attempt threw: with the default three attempts,
  the rejection of \<open>fetch\<close> itself when the facilitator cannot be reached, and the
  \<open>Verify failed\<close> error of the attempt when it answers 503.
\<close>

theorem retry_bound_counterexample:
  "fst (verify facilitator_down (new_FacilitatorClient None None None) ''eyJ4IjoxfQ==''
         (createPaymentRequirements (paymentHandler example_server) example_tool ''tool://get_ohlcv'') [])
     = Inl (Error ''fetch failed'')
   \<and> fst (verify facilitator_overloaded (new_FacilitatorClient None None None) ''eyJ4IjoxfQ==''
         (createPaymentRequirements (paymentHandler example_server) example_tool ''tool://get_ohlcv'') [])
     = Inl (Error ''Verify failed: 503 - Service Unavailable'')
   \<and> length (fetches (snd (verify facilitator_overloaded (new_FacilitatorClient None None None)
         ''eyJ4IjoxfQ=='' (createPaymentRequirements (paymentHandler example_server) example_tool
         ''tool://get_ohlcv'') []))) = 3"
proof -
  let ?c = "new_FacilitatorClient None None None"
  let ?r = "createPaymentRequirements (paymentHandler example_server) example_tool ''tool://get_ohlcv''"
  let ?rq = "verify_request ?c ''eyJ4IjoxfQ=='' ?r"
  have n: "retries ?c = 3" "0 < retries ?c" by (simp_all add: new_FacilitatorClient_def)
  have o: "transport_fails facilitator_overloaded rq" for rq
    by (simp add: transport_fails_def facilitator_overloaded_def)
  have s: "nat_toString 503 = ''503''" by code_simp
  have fd: "fetch facilitator_down w rq = Inl (Error ''fetch failed'')" for w rq
    by (simp add: facilitator_down_def)
  have fo: "fetch facilitator_overloaded w rq
              = Inr \<lparr>resp_ok = False, resp_status = 503, resp_text = ''Service Unavailable''\<rparr>" for w rq
    by (simp add: facilitator_overloaded_def)
  have a: "fst (verify facilitator_down ?c ''eyJ4IjoxfQ=='' ?r []) = Inl (Error ''fetch failed'')"
    by (simp only: verify_all_fail [OF facilitator_down_fails n(2)] fd sum.case js_error.case fst_conv)
  have v: "verify facilitator_overloaded ?c ''eyJ4IjoxfQ=='' ?r []
             = (Inl (Error ''Verify failed: 503 - Service Unavailable''),
                failed_attempts ?rq 1000 0 3 @ [Fetch ?rq])"
    by (subst verify_all_fail [OF o n(2)]) (simp add: fo s n(1))
  have b: "fst (verify facilitator_overloaded ?c ''eyJ4IjoxfQ=='' ?r [])
             = Inl (Error ''Verify failed: 503 - Service Unavailable'')"
    by (simp only: v fst_conv)
  have c: "length (fetches (snd (verify facilitator_overloaded ?c ''eyJ4IjoxfQ=='' ?r []))) = 3"
    by (simp only: v snd_conv failed_attempts_3) simp
  from a b c show ?thesis by (intro conjI)
qed

section \<open>Properties of the payment handler, the middleware and the tool route\<close>

lemma or_default_nonempty: "d \<noteq> [] \<Longrightarrow> or_default x d \<noteq> []"
  by (simp add: or_default_def split: option.splits)

text \<open>What \<open>processPayment\<close> does, by the outcome of verify and of settle.\<close>

lemma processPayment_cases:
  fixes tool :: "'a PricedTool_scheme"
  defines "reqs \<equiv> \<lambda>h res. createPaymentRequirements h tool res"
  shows "processPayment E hdr tool res (h, w) =
     (case verify E (facilitator h) hdr (reqs h res) w of
        (Inl e, w1) \<Rightarrow> (Inl e, (h, w1))
      | (Inr None, w1) \<Rightarrow> (Inl TypeError_isValid_of_null, (h, w1))
      | (Inr (Some v), w1) \<Rightarrow>
          if \<not> isValid v
          then (Inl (Error (''Payment invalid: '' @ or_default (invalidReason v) ''unknown'')), (h, w1))
          else (case settle E (facilitator h) hdr (reqs h res) w1 of
                  (Inl e, w2) \<Rightarrow> (Inl e, (h, w2))
                | (Inr r, w2) \<Rightarrow>
                    if \<not> success r
                    then (Inl (Error (''Settlement failed: '' @ or_default (sr_errorReason r) ''unknown'')), (h, w2))
                    else (Inr \<lparr>rec_id = randomUUID E w2, rec_toolName = tool_name tool,
                               rec_amount = tool_price tool,
                               rec_payer = or_default (payer v) ''unknown'',
                               rec_txHash = or_default (sr_transaction r) [],
                               rec_timestamp = Date_now E w2, rec_status = settled\<rparr>,
                          (h\<lparr>payments := map_set (randomUUID E w2)
                                \<lparr>rec_id = randomUUID E w2, rec_toolName = tool_name tool,
                                 rec_amount = tool_price tool,
                                 rec_payer = or_default (payer v) ''unknown'',
                                 rec_txHash = or_default (sr_transaction r) [],
                                 rec_timestamp = Date_now E w2, rec_status = settled\<rparr> (payments h)\<rparr>, w2))))"
  by (simp add: processPayment_def reqs_def Let_def split: prod.splits sum.splits option.splits)

lemma toolRoute_unfold:
  "toolRoute E tool ctx (srv, w) =
     (case process E tool (ctx_headers ctx ''x-payment'') (paymentHandler srv, w) of
        (None, (h, w')) \<Rightarrow> (None, (srv\<lparr>paymentHandler := h\<rparr>, w'))
      | (Some result, (h, w')) \<Rightarrow>
          (case mr_paymentRequired result of
             Some required \<Rightarrow>
               (Some \<lparr>status = pq_status required, body = ChallengeBody (pq_body required)\<rparr>,
                (srv\<lparr>paymentHandler := h\<rparr>, w'))
           | None \<Rightarrow>
               if mr_error result \<noteq> None \<and> mr_error result \<noteq> Some []
               then (Some \<lparr>status = 402,
                           body = ErrorBody (''Payment invalid: '' @ the (mr_error result))\<rparr>,
                     (srv\<lparr>paymentHandler := h\<rparr>, w'))
               else
                 (case handler tool (ctx_body ctx) of
                    Inr toolResult \<Rightarrow>
                      (Some \<lparr>status = 200, body = ResultBody toolResult (mr_payment result)\<rparr>,
                       (incrementToolCalls (tool_name tool) (srv\<lparr>paymentHandler := h\<rparr>),
                        w' @ [Invoke (tool_name tool)]))
                  | Inl error \<Rightarrow>
                      (Some \<lparr>status = 500,
                             body = ErrorBody (case error of Error m \<Rightarrow> m
                                               | Undefined \<Rightarrow> ''Tool execution failed'')\<rparr>,
                       (srv\<lparr>paymentHandler := h\<rparr>, w' @ [Invoke (tool_name tool)])))))"
  by (simp add: toolRoute_def Let_def split: prod.splits option.splits)

lemma route_on_error:
  assumes "process E tool (ctx_headers ctx ''x-payment'') (paymentHandler srv, w)
             = (Some \<lparr>proceed = False, mr_paymentRequired = None, mr_payment = None,
                      mr_error = Some m\<rparr>, (h, w'))"
    and "m \<noteq> []"
  shows "toolRoute E tool ctx (srv, w)
           = (Some \<lparr>status = 402, body = ErrorBody (''Payment invalid: '' @ m)\<rparr>,
              (srv\<lparr>paymentHandler := h\<rparr>, w'))"
  using assms by (simp add: toolRoute_unfold)

lemma route_on_proceed:
  assumes "process E tool (ctx_headers ctx ''x-payment'') (paymentHandler srv, w)
             = (Some \<lparr>proceed = True, mr_paymentRequired = None, mr_payment = p,
                      mr_error = None\<rparr>, (h, w'))"
  shows "snd (snd (toolRoute E tool ctx (srv, w))) = w' @ [Invoke (tool_name tool)]
       \<and> (map_option status (fst (toolRoute E tool ctx (srv, w))) = Some 200
          \<or> map_option status (fst (toolRoute E tool ctx (srv, w))) = Some 500)"
  using assms by (simp add: toolRoute_unfold split: sum.splits)

lemma process_priced:
  assumes "BigInt (tool_price tool) = Some price" and "price \<noteq> 0"
  shows "process E tool hdr (h, w) =
     (if hdr = None \<or> hdr = Some []
      then (Some \<lparr>proceed = False,
                  mr_paymentRequired = Some (create402Response h tool (''tool://'' @ tool_name tool)),
                  mr_payment = None, mr_error = None\<rparr>, (h, w))
      else (case processPayment E (the hdr) tool (''tool://'' @ tool_name tool) (h, w) of
              (Inr payment, s') \<Rightarrow>
                (Some \<lparr>proceed = True, mr_paymentRequired = None,
                       mr_payment = Some payment, mr_error = None\<rparr>, s')
            | (Inl error, s') \<Rightarrow>
                (Some \<lparr>proceed = False, mr_paymentRequired = None, mr_payment = None,
                       mr_error = Some (case error of Error m \<Rightarrow> m | Undefined \<Rightarrow> ''Payment failed'')\<rparr>,
                 s')))"
  using assms by (simp add: process_def)

text \<open>
  A verify answer that is the JSON value \<open>null\<close> is returned by \<open>verify\<close> after its one
  request; \<open>processPayment\<close> then raises the TypeError, and the route answers 402 without
  a settle request and without invoking the handler.
\<close>

lemma null_verify_answer_is_reported:
  fixes tool :: "('p, 'r) RegisteredTool"
  assumes price: "BigInt (tool_price tool) = Some price" "0 < price"
    and hdr: "ctx_headers ctx ''x-payment'' = Some hdr" "hdr \<noteq> []"
    and ver: "verify E (facilitator (paymentHandler srv)) hdr
                (createPaymentRequirements (paymentHandler srv) tool (''tool://'' @ tool_name tool)) w
              = (Inr None, w1)"
  shows "toolRoute E tool ctx (srv, w)
           = (Some \<lparr>status = 402,
                    body = ErrorBody (''Payment invalid: Cannot read properties of null (reading ''
                                      @ [CHR 0x27] @ ''isValid'' @ [CHR 0x27] @ '')'')\<rparr>,
              (srv, w1))"
proof -
  let ?h = "paymentHandler srv"
  from price have p0: "price \<noteq> 0" by simp
  have pp: "processPayment E hdr tool (''tool://'' @ tool_name tool) (?h, w)
              = (Inl TypeError_isValid_of_null, (?h, w1))"
    using ver by (simp add: processPayment_cases)
  have "process E tool (ctx_headers ctx ''x-payment'') (?h, w)
          = (Some \<lparr>proceed = False, mr_paymentRequired = None, mr_payment = None,
                   mr_error = Some (''Cannot read properties of null (reading '' @ [CHR 0x27]
                                    @ ''isValid'' @ [CHR 0x27] @ '')'')\<rparr>, (?h, w1))"
    using hdr pp by (simp add: process_priced [OF price(1) p0] TypeError_isValid_of_null_def)
  from route_on_error [OF this] show ?thesis by simp
qed

text \<open>
  C2. When verify answers \<open>isValid = false\<close> with a reason, \<open>processPayment\<close> throws the error
  \<open>Payment invalid: \<close> followed by that reason, and the route answers 402 with it. The trace
  is the one verify left: no settle request was sent and the handler was not invoked. The
  server after the call is the server before it: no payment record, the same revenue.
\<close>

theorem rejected_payment_is_reported_and_not_settled:
  fixes tool :: "('p, 'r) RegisteredTool"
  assumes price: "BigInt (tool_price tool) = Some price" "0 < price"
    and hdr: "ctx_headers ctx ''x-payment'' = Some hdr" "hdr \<noteq> []"
    and ver: "verify E (facilitator (paymentHandler srv)) hdr
                (createPaymentRequirements (paymentHandler srv) tool (''tool://'' @ tool_name tool)) w
              = (Inr (Some v), w1)"
    and rej: "\<not> isValid v" "invalidReason v = Some reason" "reason \<noteq> []"
  shows "processPayment E hdr tool (''tool://'' @ tool_name tool) (paymentHandler srv, w)
           = (Inl (Error (''Payment invalid: '' @ reason)), (paymentHandler srv, w1))
       \<and> toolRoute E tool ctx (srv, w)
           = (Some \<lparr>status = 402, body = ErrorBody (''Payment invalid: Payment invalid: '' @ reason)\<rparr>,
              (srv, w1))
       \<and> settle_calls (facilitator (paymentHandler srv)) w1
           = settle_calls (facilitator (paymentHandler srv)) w
       \<and> invocations w1 = invocations w
       \<and> getPayments (paymentHandler (fst (snd (toolRoute E tool ctx (srv, w)))))
           = getPayments (paymentHandler srv)
       \<and> getTotalRevenue (paymentHandler (fst (snd (toolRoute E tool ctx (srv, w)))))
           = getTotalRevenue (paymentHandler srv)"
proof -
  let ?h = "paymentHandler srv"
  let ?res = "''tool://'' @ tool_name tool"
  from price have p0: "price \<noteq> 0" by simp
  from rej have d: "or_default (invalidReason v) ''unknown'' = reason"
    by (simp add: or_default_def)
  have pp: "processPayment E hdr tool ?res (?h, w)
              = (Inl (Error (''Payment invalid: '' @ reason)), (?h, w1))"
    using ver rej(1) d by (simp add: processPayment_cases)
  have "process E tool (ctx_headers ctx ''x-payment'') (?h, w)
          = (Some \<lparr>proceed = False, mr_paymentRequired = None, mr_payment = None,
                   mr_error = Some (''Payment invalid: '' @ reason)\<rparr>, (?h, w1))"
    using hdr pp by (simp add: process_priced [OF price(1) p0])
  from route_on_error [OF this]
  have rt: "toolRoute E tool ctx (srv, w)
           = (Some \<lparr>status = 402, body = ErrorBody (''Payment invalid: Payment invalid: '' @ reason)\<rparr>,
              (srv, w1))"
    by simp
  have "settle_calls (facilitator ?h) w1 = settle_calls (facilitator ?h) w"
    using verify_no_settle_call [of "facilitator ?h" E hdr "createPaymentRequirements ?h tool ?res" w]
    by (simp only: ver snd_conv)
  moreover have "invocations w1 = invocations w"
    using verify_invocations [of E "facilitator ?h" hdr "createPaymentRequirements ?h tool ?res" w]
    by (simp only: ver snd_conv)
  ultimately show ?thesis using pp rt by simp
qed

theorem rejected_payment_is_reported_and_not_settled_witness:
  "BigInt (tool_price example_tool) = Some 1000
   \<and> ctx_headers (example_call (Some ''eyJ4IjoxfQ=='')) ''x-payment'' = Some ''eyJ4IjoxfQ==''
   \<and> \<not> isValid answer_invalid_signature
   \<and> invalidReason answer_invalid_signature = Some ''invalid_signature''
   \<and> fst (toolRoute (facilitator_answers answer_invalid_signature answer_settled) example_tool
          (example_call (Some ''eyJ4IjoxfQ=='')) (example_server, []))
       = Some \<lparr>status = 402, body = ErrorBody ''Payment invalid: Payment invalid: invalid_signature''\<rparr>
   \<and> fst (snd (toolRoute (facilitator_answers answer_invalid_signature answer_settled) example_tool
          (example_call (Some ''eyJ4IjoxfQ=='')) (example_server, []))) = example_server"
proof -
  let ?E = "facilitator_answers answer_invalid_signature answer_settled"
  let ?hdr = "''eyJ4IjoxfQ==''"
  let ?ctx = "example_call (Some ?hdr)"
  let ?c = "facilitator (paymentHandler example_server)"
  let ?reqs = "createPaymentRequirements (paymentHandler example_server) example_tool
                 (''tool://'' @ tool_name example_tool)"
  have p: "BigInt (tool_price example_tool) = Some 1000" by (rule example_price)
  have pos: "(0::int) < 1000" by simp
  have h: "ctx_headers ?ctx ''x-payment'' = Some ?hdr" by (rule example_header)
  have hne: "?hdr \<noteq> []" by simp
  have v: "verify ?E ?c ?hdr ?reqs [] = (Inr (Some answer_invalid_signature), [] @ [Fetch (verify_request ?c ?hdr ?reqs)])"
    by (rule verify_answers [OF example_retries])
  have r1: "\<not> isValid answer_invalid_signature"
    and r2: "invalidReason answer_invalid_signature = Some ''invalid_signature''"
    and r3: "''invalid_signature'' \<noteq> []"
    by (simp_all add: answer_invalid_signature_def)
  note t = rejected_payment_is_reported_and_not_settled [OF p pos h hne v r1 r2 r3]
  from t [THEN conjunct2, THEN conjunct1]
  have a: "fst (toolRoute ?E example_tool ?ctx (example_server, []))
       = Some \<lparr>status = 402, body = ErrorBody ''Payment invalid: Payment invalid: invalid_signature''\<rparr>"
    and b: "fst (snd (toolRoute ?E example_tool ?ctx (example_server, []))) = example_server"
    by simp_all
  from p h r1 r2 a b show ?thesis by (intro conjI)
qed

text \<open>
  C7. A tool priced \<open>1000\<close>, called with no payment header (or an empty one): the answer
  has status 402 and the body \<open>{error: "Payment Required", paymentRequirements, accepts:
  [paymentRequirements]}\<close>, the requirements asking for \<open>1000\<close>, scheme \<open>exact\<close>, MIME type
  \<open>application/json\<close> and a timeout of 300 seconds. Nothing else happens.
\<close>

theorem unpaid_call_is_challenged:
  fixes tool :: "('p, 'r) RegisteredTool"
  assumes "tool_price tool = ''1000''"
    and "ctx_headers ctx ''x-payment'' = None \<or> ctx_headers ctx ''x-payment'' = Some []"
  shows "toolRoute E tool ctx (srv, w)
           = (Some \<lparr>status = 402,
                    body = ChallengeBody
                      \<lparr>prb_error = ''Payment Required'',
                       prb_paymentRequirements =
                         createPaymentRequirements (paymentHandler srv) tool (''tool://'' @ tool_name tool),
                       prb_accepts =
                         [createPaymentRequirements (paymentHandler srv) tool (''tool://'' @ tool_name tool)]\<rparr>\<rparr>,
              (srv, w))
       \<and> pr_maxAmountRequired (createPaymentRequirements (paymentHandler srv) tool (''tool://'' @ tool_name tool)) = ''1000''
       \<and> pr_scheme (createPaymentRequirements (paymentHandler srv) tool (''tool://'' @ tool_name tool)) = ''exact''
       \<and> pr_mimeType (createPaymentRequirements (paymentHandler srv) tool (''tool://'' @ tool_name tool)) = ''application/json''
       \<and> pr_maxTimeoutSeconds (createPaymentRequirements (paymentHandler srv) tool (''tool://'' @ tool_name tool)) = 300"
proof -
  have b: "BigInt ''1000'' = Some 1000" by code_simp
  have "BigInt (tool_price tool) = Some 1000" using assms(1) b by simp
  note proc = process_priced [OF this, of E _ "paymentHandler srv" w]
  from assms(2) have "toolRoute E tool ctx (srv, w)
           = (Some \<lparr>status = 402,
                    body = ChallengeBody (pq_body (create402Response (paymentHandler srv) tool (''tool://'' @ tool_name tool)))\<rparr>,
              (srv, w))"
    by (auto simp add: toolRoute_unfold proc create402Response_def Let_def)
  then show ?thesis
    using assms(1) by (simp add: create402Response_def createPaymentRequirements_def Let_def)
qed

theorem unpaid_call_is_challenged_witness:
  "tool_price example_tool = ''1000''
   \<and> ctx_headers (example_call None) ''x-payment'' = None
   \<and> map_option status (fst (toolRoute facilitator_down example_tool (example_call None) (example_server, [])))
       = Some 402
   \<and> pr_maxAmountRequired (createPaymentRequirements (paymentHandler example_server) example_tool
        (''tool://'' @ tool_name example_tool)) = ''1000''"
proof -
  have p: "tool_price example_tool = ''1000''" by (simp add: example_tool_def)
  have h: "ctx_headers (example_call None) ''x-payment'' = None" by (rule example_header)
  then have h': "ctx_headers (example_call None) ''x-payment'' = None
      \<or> ctx_headers (example_call None) ''x-payment'' = Some []" by (rule disjI1)
  note t = unpaid_call_is_challenged [OF p h', of facilitator_down example_server "[]"]
  from t [THEN conjunct1]
  have a: "map_option status (fst (toolRoute facilitator_down example_tool (example_call None) (example_server, [])))
       = Some 402" by simp
  from t [THEN conjunct2, THEN conjunct1]
  have b: "pr_maxAmountRequired (createPaymentRequirements (paymentHandler example_server) example_tool
        (''tool://'' @ tool_name example_tool)) = ''1000''" .
  from p h a b show ?thesis by (intro conjI)
qed


section \<open>Base64 and JSON: decoding what was encoded\<close>

lemma unbase64_base64_char: "k < 64 \<Longrightarrow> unbase64 (base64_char k) = Some k"
  by (auto simp add: unbase64_def base64_char_def Let_def)

lemma base64_char_not_pad: "k < 64 \<Longrightarrow> base64_char k \<noteq> CHR ''=''"
proof
  assume k: "k < 64" and "base64_char k = CHR ''=''"
  then have "(of_char (base64_char k) :: nat) = of_char CHR ''=''" by simp
  with k show False by (simp add: base64_char_def split: if_splits)
qed

lemma sext_bounds:
  fixes x y z :: nat
  assumes "x < 256" "y < 256" "z < 256"
  shows "x div 4 < 64" "(x mod 4) * 16 + y div 16 < 64" "(y mod 16) * 4 + z div 64 < 64"
    "z mod 64 < 64" "(y mod 16) * 4 < 64" "(x mod 4) * 16 < 64"
  using assms by simp_all

lemma sextet_char:
  assumes "k < 64"
  shows "List.map_filter unbase64 (takeWhile (\<lambda>c. c \<noteq> CHR ''='') (base64_char k # cs))
           = k # List.map_filter unbase64 (takeWhile (\<lambda>c. c \<noteq> CHR ''='') cs)"
  using base64_char_not_pad [OF assms] unbase64_base64_char [OF assms]
  by (simp add: List.map_filter_simps)

lemma sextet_pad:
  "List.map_filter unbase64 (takeWhile (\<lambda>c. c \<noteq> CHR ''='') (CHR ''='' # cs)) = []"
  by (simp add: List.map_filter_simps)

lemma sextets_decoded:
  "List.map_filter unbase64 (takeWhile (\<lambda>c. c \<noteq> CHR ''='') (toString_base64 bs)) = sextets bs"
proof (induction bs rule: toString_base64.induct)
  case (1 a b c rest)
  let ?x = "of_char a :: nat" and ?y = "of_char b :: nat" and ?z = "of_char c :: nat"
  note b = sext_bounds [of ?x ?y ?z, OF nat_of_char_less_256 nat_of_char_less_256 nat_of_char_less_256]
  have ih: "List.map_filter unbase64 (takeWhile (\<lambda>c. c \<noteq> CHR ''='') (toString_base64 rest)) = sextets rest"
    using 1 by simp
  show ?case
    by (simp only: toString_base64.simps Let_def append_Cons append_Nil sextets.simps
        sextet_char [OF b(1)] sextet_char [OF b(2)] sextet_char [OF b(3)] sextet_char [OF b(4)] ih)
next
  case (2 a b)
  let ?x = "of_char a :: nat" and ?y = "of_char b :: nat"
  note b = sext_bounds [of ?x ?y 0, OF nat_of_char_less_256 nat_of_char_less_256]
  show ?case
    by (simp only: toString_base64.simps Let_def append_Cons append_Nil sextets.simps
        sextet_char [OF b(1)] sextet_char [OF b(2)] sextet_char [OF b(5)] sextet_pad)
next
  case (3 a)
  let ?x = "of_char a :: nat"
  note b = sext_bounds [of ?x 0 0, OF nat_of_char_less_256]
  show ?case
    by (simp only: toString_base64.simps Let_def append_Cons append_Nil sextets.simps
        sextet_char [OF b(1)] sextet_char [OF b(6)] sextet_pad)
next
  case 4
  show ?case by (simp add: List.map_filter_simps)
qed

lemma regroup:
  fixes x y z :: nat
  assumes "x < 256" "y < 256" "z < 256"
  shows "x div 4 * 4 + (x mod 4 * 16 + y div 16) div 16 = x"
    and "(x mod 4 * 16 + y div 16) mod 16 * 16 + (y mod 16 * 4 + z div 64) div 4 = y"
    and "(y mod 16 * 4 + z div 64) mod 4 * 64 + z mod 64 = z"
    and "(x mod 4 * 16 + y div 16) mod 16 * 16 + (y mod 16 * 4) div 4 = y"
    and "x div 4 * 4 + (x mod 4 * 16) div 16 = x"
proof -
  have y16: "y div 16 < 16" and z64: "z div 64 < 4" using assms by simp_all
  have a: "(x mod 4 * 16 + y div 16) div 16 = x mod 4" using y16 by simp
  have b: "(x mod 4 * 16 + y div 16) mod 16 = y div 16" using y16 by simp
  have c: "(y mod 16 * 4 + z div 64) div 4 = y mod 16" using z64 by simp
  have d: "(y mod 16 * 4 + z div 64) mod 4 = z div 64" using z64 by simp
  show "x div 4 * 4 + (x mod 4 * 16 + y div 16) div 16 = x" by (simp only: a) simp
  show "(x mod 4 * 16 + y div 16) mod 16 * 16 + (y mod 16 * 4 + z div 64) div 4 = y"
    by (simp only: b c) simp
  show "(y mod 16 * 4 + z div 64) mod 4 * 64 + z mod 64 = z" by (simp only: d) simp
  show "(x mod 4 * 16 + y div 16) mod 16 * 16 + (y mod 16 * 4) div 4 = y" by (simp only: b) simp
  show "x div 4 * 4 + (x mod 4 * 16) div 16 = x" by simp
qed

lemma from_sextets_sextets: "from_sextets (sextets bs) = bs"
proof (induction bs rule: sextets.induct)
  case (1 a b c rest)
  let ?x = "of_char a :: nat" and ?y = "of_char b :: nat" and ?z = "of_char c :: nat"
  note r = regroup [of ?x ?y ?z, OF nat_of_char_less_256 nat_of_char_less_256 nat_of_char_less_256]
  show ?case
    by (simp only: sextets.simps from_sextets.simps append_Cons append_Nil r char_of_char 1)
next
  case (2 a b)
  let ?x = "of_char a :: nat" and ?y = "of_char b :: nat"
  note r = regroup [of ?x ?y 0, OF nat_of_char_less_256 nat_of_char_less_256]
  show ?case
    by (simp only: sextets.simps from_sextets.simps append_Cons append_Nil r char_of_char)
next
  case (3 a)
  let ?x = "of_char a :: nat"
  note r = regroup [of ?x 0 0, OF nat_of_char_less_256]
  show ?case
    by (simp only: sextets.simps from_sextets.simps append_Cons append_Nil r char_of_char)
next
  case 4
  show ?case by simp
qed

lemma from_base64_toString_base64: "from_base64 (toString_base64 bs) = bs"
  by (simp add: from_base64_def sextets_decoded from_sextets_sextets)

lemma char_code_eq: "(of_char c :: nat) = of_char d \<longleftrightarrow> c = d"
  by simp

lemma map_option_append_Nil [simp]: "map_option ((@) []) x = x"
  by (cases x) simp_all

lemma map_option_append_Cons [simp]:
  "map_option ((@) (t # ts)) x = map_option ((#) t) (map_option ((@) ts) x)"
  by (cases x) simp_all

lemma lexer_step_simp:
  "lex_step st c = Some (ts, st') \<Longrightarrow> lexer st (c # cs) = map_option (\<lambda>r. ts @ r) (lexer st' cs)"
  by simp

lemma hex_digit_val: "n < 16 \<Longrightarrow> digit_val (hex_digit n) = Some n"
  by (auto simp: digit_val_def hex_digit_def Let_def)

lemma lex_string_step: "lex_step (InString acc) c = Some ([], InString (acc @ [c]))"
  if "(of_char c :: nat) \<ge> 32" "c \<noteq> CHR 0x22" "c \<noteq> CHR 0x5C"
  using that by (simp add: lex_step_def)

text \<open>Lexing the quoted form of one character adds that character to the string.\<close>

lemma lex_quote_char:
  "lexer (InString acc) (quote_char c @ tail) = lexer (InString (acc @ [c])) tail"
proof -
  let ?n = "of_char c :: nat"
  consider (q) "?n = 34" | (bs) "?n = 92" | (b) "?n = 8" | (t) "?n = 9" | (n) "?n = 10"
    | (f) "?n = 12" | (r) "?n = 13"
    | (u) "?n < 32" "?n \<noteq> 8" "?n \<noteq> 9" "?n \<noteq> 10" "?n \<noteq> 12" "?n \<noteq> 13"
    | (plain) "?n \<ge> 32" "?n \<noteq> 34" "?n \<noteq> 92"
    by linarith
  then show ?thesis
  proof cases
    case q
    then have "c = CHR 0x22" by (simp add: char_code_eq [symmetric])
    then show ?thesis by (simp add: quote_char_def lex_step_def)
  next
    case bs
    then have "c = CHR 0x5C" by (simp add: char_code_eq [symmetric])
    then show ?thesis by (simp add: quote_char_def lex_step_def)
  next
    case b
    then have "c = CHR 0x08" by (simp add: char_code_eq [symmetric])
    then show ?thesis by (simp add: quote_char_def lex_step_def)
  next
    case t
    then have "c = CHR 0x09" by (simp add: char_code_eq [symmetric])
    then show ?thesis by (simp add: quote_char_def lex_step_def)
  next
    case n
    then have "c = CHR 0x0A" by (simp add: char_code_eq [symmetric])
    then show ?thesis by (simp add: quote_char_def lex_step_def)
  next
    case f
    then have "c = CHR 0x0C" by (simp add: char_code_eq [symmetric])
    then show ?thesis by (simp add: quote_char_def lex_step_def)
  next
    case r
    then have "c = CHR 0x0D" by (simp add: char_code_eq [symmetric])
    then show ?thesis by (simp add: quote_char_def lex_step_def)
  next
    case u
    have q: "quote_char c = [CHR 0x5C, CHR ''u'', CHR ''0'', CHR ''0'', hex_digit (?n div 16), hex_digit (?n mod 16)]"
      using u by (simp add: quote_char_def Let_def)
    have h1: "digit_val (hex_digit (?n div 16)) = Some (?n div 16)"
      and h2: "digit_val (hex_digit (?n mod 16)) = Some (?n mod 16)"
      using u(1) by (simp_all add: hex_digit_val)
    have z: "digit_val CHR ''0'' = Some 0" by (simp add: digit_val_def)
    have v: "utf8_of_unit ?n = [c]"
      using u(1) by (simp add: utf8_of_unit_def)
    show ?thesis
      unfolding q by (simp add: lex_step_def z h1 h2 v)
  next
    case plain
    then have ne: "c \<noteq> CHR 0x22" "c \<noteq> CHR 0x5C" by auto
    with plain have "quote_char c = [c]" by (simp add: quote_char_def Let_def)
    with plain ne show ?thesis by (simp add: lex_step_def)
  qed
qed

lemma lex_quoted:
  "lexer (InString acc) (concat (map quote_char s) @ CHR 0x22 # rest)
     = map_option (\<lambda>r. Atom (JString (acc @ s)) # r) (lexer Top rest)"
proof (induction s arbitrary: acc)
  case Nil
  show ?case by (simp add: lex_step_def)
next
  case (Cons c s)
  have "lexer (InString acc) (concat (map quote_char (c # s)) @ CHR 0x22 # rest)
          = lexer (InString acc) (quote_char c @ (concat (map quote_char s) @ CHR 0x22 # rest))"
    by simp
  also have "\<dots> = lexer (InString (acc @ [c])) (concat (map quote_char s) @ CHR 0x22 # rest)"
    by (rule lex_quote_char)
  also have "\<dots> = map_option (\<lambda>r. Atom (JString ((acc @ [c]) @ s)) # r) (lexer Top rest)"
    by (rule Cons.IH)
  finally show ?case by simp
qed

lemma lex_QuoteJSONString:
  "lexer Top (QuoteJSONString s @ rest) = map_option (\<lambda>r. Atom (JString s) # r) (lexer Top rest)"
  using lex_quoted [of "[]" s rest]
  by (simp add: QuoteJSONString_def lex_step_def top_step_def is_json_space_def)

lemma char_of_digit_zero: "(n::nat) < 10 \<Longrightarrow> char_of (48 + n) = CHR ''0'' \<longleftrightarrow> n = 0"
  by (simp add: char_of_eq_iff take_bit_eq_mod)

lemma nat_toString_zero: "nat_toString 0 = ''0''"
  using char_of_digit_zero [of 0] by (subst nat_toString.simps) simp

lemma nat_toString_hd: "0 < n \<Longrightarrow> hd (nat_toString n) \<noteq> CHR ''0''"
proof (induction n rule: nat_toString.induct)
  case (1 n)
  show ?case
  proof (cases "n < 10")
    case True
    with 1(2) show ?thesis by (subst nat_toString.simps) (simp add: char_of_digit_zero)
  next
    case False
    then have "0 < n div 10" by simp
    with 1(1) False have "hd (nat_toString (n div 10)) \<noteq> CHR ''0''" by simp
    with False show ?thesis
      by (subst nat_toString.simps) (simp add: nat_toString_nonempty)
  qed
qed

lemma lex_digits:
  "(\<forall>c\<in>set ds. is_digit c) \<Longrightarrow>
     lexer (InNumber NInt lit) (ds @ rest) = lexer (InNumber NInt (lit @ ds)) rest"
proof (induction ds arbitrary: lit)
  case Nil
  show ?case by simp
next
  case (Cons d ds)
  then have "lex_step (InNumber NInt lit) d = Some ([], InNumber NInt (lit @ [d]))"
    by (simp add: lex_step_def number_step_def)
  with Cons show ?case by simp
qed

lemma lex_number_end:
  assumes "ends_number rest" and "st = NInt \<or> st = NZero" and "number_token st lit = Some t"
  shows "lexer (InNumber st lit) rest = map_option (\<lambda>r. t # r) (lexer Top rest)"
proof (cases rest)
  case Nil
  with assms show ?thesis by (simp add: lex_end_def)
next
  case (Cons d rest')
  with assms(1) have d: "\<not> is_digit d" "d \<noteq> CHR ''.''" "d \<noteq> CHR ''e''" "d \<noteq> CHR ''E''"
    by (simp_all add: ends_number_def)
  have ns: "number_step st d = None"
  proof (cases "st = NInt")
    case True
    with d show ?thesis by (simp add: number_step_def)
  next
    case False
    with assms(2) have "st = NZero" by simp
    with d show ?thesis by (simp add: number_step_def)
  qed
  have step: "lex_step (InNumber st lit) d
                = (case top_step d of None \<Rightarrow> None | Some (ts, st') \<Rightarrow> Some (t # ts, st'))"
    by (simp add: lex_step_def ns assms(3))
  have top: "lex_step Top d = top_step d" by (simp add: lex_step_def)
  show ?thesis
  proof (cases "top_step d")
    case None
    then show ?thesis unfolding Cons by (simp add: step top)
  next
    case (Some p)
    obtain ts st' where p: "p = (ts, st')" by (cases p)
    show ?thesis unfolding Cons by (simp add: step top Some p option.map_comp comp_def)
  qed
qed

lemma number_token_nat:
  "number_token NInt (nat_toString n) = Some (Atom (JNumber (int n)))"
  "number_token NZero (nat_toString n) = Some (Atom (JNumber (int n)))"
proof -
  obtain c cs where s: "nat_toString n = c # cs"
    using nat_toString_nonempty [of n] by (cases "nat_toString n") auto
  have "is_digit c" using nat_toString_digits [of c n] s by simp
  then have "c \<noteq> CHR ''-''" by (auto simp: is_digit_def)
  moreover have "digits_value 10 (c # cs) 0 = Some n"
    using digits_value_nat_toString [of n] s by simp
  ultimately show "number_token NInt (nat_toString n) = Some (Atom (JNumber (int n)))"
    "number_token NZero (nat_toString n) = Some (Atom (JNumber (int n)))"
    unfolding s by (simp_all add: number_token_def)
qed

lemma number_token_neg:
  "number_token NInt (CHR ''-'' # nat_toString n) = Some (Atom (JNumber (- int n)))"
  using digits_value_nat_toString [of n] by (simp add: number_token_def)

lemma top_step_digit:
  assumes "is_digit c"
  shows "top_step c = (if c = CHR ''0'' then Some ([], InNumber NZero [c]) else Some ([], InNumber NInt [c]))"
proof -
  from assms have "\<not> is_json_space c" by (simp add: is_json_space_def is_digit_def)
  moreover from assms have "c \<noteq> CHR ''{''" "c \<noteq> CHR ''}''" "c \<noteq> CHR ''[''" "c \<noteq> CHR '']''"
    "c \<noteq> CHR '':''" "c \<noteq> CHR '',''" "c \<noteq> CHR 0x22" "c \<noteq> CHR ''-''"
    by (auto simp: is_digit_def)
  ultimately show ?thesis using assms by (simp add: top_step_def)
qed

lemma lex_nat:
  assumes "ends_number rest"
  shows "lexer Top (nat_toString n @ rest) = map_option (\<lambda>r. Atom (JNumber (int n)) # r) (lexer Top rest)"
proof (cases "n = 0")
  case True
  have "top_step CHR ''0'' = Some ([], InNumber NZero ''0'')"
    by (simp add: top_step_def is_json_space_def)
  then have "lexer Top (''0'' @ rest) = lexer (InNumber NZero ''0'') rest"
    by (simp add: lex_step_def)
  also have "\<dots> = map_option (\<lambda>r. Atom (JNumber 0) # r) (lexer Top rest)"
    using lex_number_end [OF assms, of NZero "''0''"] number_token_nat(2) [of 0]
    by (simp add: nat_toString_zero)
  finally show ?thesis using True by (simp add: nat_toString_zero)
next
  case False
  obtain c cs where s: "nat_toString n = c # cs"
    using nat_toString_nonempty [of n] by (cases "nat_toString n") auto
  have dig: "\<forall>x\<in>set (c # cs). is_digit x" using nat_toString_digits [of _ n] s by auto
  have c0: "c \<noteq> CHR ''0''" using nat_toString_hd [of n] False s by simp
  from dig c0 have "top_step c = Some ([], InNumber NInt [c])"
    by (simp add: top_step_digit)
  then have "lexer Top ((c # cs) @ rest) = lexer (InNumber NInt [c]) (cs @ rest)"
    by (simp add: lex_step_def)
  also have "\<dots> = lexer (InNumber NInt ([c] @ cs)) rest"
    using dig by (intro lex_digits) simp
  also have "\<dots> = map_option (\<lambda>r. Atom (JNumber (int n)) # r) (lexer Top rest)"
    using lex_number_end [OF assms, of NInt "c # cs"] number_token_nat(1) [of n] s by simp
  finally show ?thesis by (simp add: s)
qed

lemma lex_int:
  assumes "ends_number rest"
  shows "lexer Top (toString i @ rest) = map_option (\<lambda>r. Atom (JNumber i) # r) (lexer Top rest)"
proof (cases "i < 0")
  case False
  then show ?thesis using lex_nat [OF assms, of "nat i"] by (simp add: toString_def)
next
  case True
  let ?m = "nat (- i)"
  from True have m: "0 < ?m" by simp
  obtain c cs where s: "nat_toString ?m = c # cs"
    using nat_toString_nonempty [of ?m] by (cases "nat_toString ?m") auto
  have dig: "\<forall>x\<in>set (c # cs). is_digit x" using nat_toString_digits [of _ ?m] s by auto
  have c0: "c \<noteq> CHR ''0''" using nat_toString_hd [OF m] s by simp
  have "top_step CHR ''-'' = Some ([], InNumber NMinus ''-'')"
    by (simp add: top_step_def is_json_space_def)
  moreover have "lex_step (InNumber NMinus ''-'') c = Some ([], InNumber NInt (''-'' @ [c]))"
    using dig c0 by (simp add: lex_step_def number_step_def)
  ultimately have "lexer Top ((CHR ''-'' # c # cs) @ rest) = lexer (InNumber NInt (''-'' @ [c])) (cs @ rest)"
    by (simp add: lex_step_def)
  also have "\<dots> = lexer (InNumber NInt ((''-'' @ [c]) @ cs)) rest"
    using dig by (intro lex_digits) simp
  also have "\<dots> = map_option (\<lambda>r. Atom (JNumber (- int ?m)) # r) (lexer Top rest)"
    using lex_number_end [OF assms, of NInt "CHR ''-'' # c # cs"] number_token_neg [of ?m] s by simp
  finally show ?thesis using True by (simp add: toString_def s)
qed

lemma ends_number_simps [simp]:
  "ends_number []" "ends_number (CHR '','' # r)" "ends_number (CHR '']'' # r)" "ends_number (CHR ''}'' # r)"
  by (simp_all add: ends_number_def is_digit_def)

lemma lex_punct:
  "lexer Top (CHR '','' # r) = map_option ((#) Comma) (lexer Top r)"
  "lexer Top (CHR '':'' # r) = map_option ((#) Colon) (lexer Top r)"
  "lexer Top (CHR ''['' # r) = map_option ((#) LBracket) (lexer Top r)"
  "lexer Top (CHR '']'' # r) = map_option ((#) RBracket) (lexer Top r)"
  "lexer Top (CHR ''{'' # r) = map_option ((#) LBrace) (lexer Top r)"
  "lexer Top (CHR ''}'' # r) = map_option ((#) RBrace) (lexer Top r)"
  by (simp_all add: lex_step_def top_step_def is_json_space_def)

lemma lex_literals:
  "lexer Top (''null'' @ r) = map_option ((#) (Atom JNull)) (lexer Top r)"
  "lexer Top (''true'' @ r) = map_option ((#) (Atom (JBool True))) (lexer Top r)"
  "lexer Top (''false'' @ r) = map_option ((#) (Atom (JBool False))) (lexer Top r)"
  by (simp_all add: lex_step_def top_step_def is_json_space_def is_digit_def)

declare lexer.simps(2) [simp del]

lemma lex_tail:
  assumes el: "\<And>x rest r. x \<in> set xs \<Longrightarrow> ends_number rest \<Longrightarrow> lexer Top rest = Some r
                 \<Longrightarrow> lexer Top (f x @ rest) = Some (g x @ r)"
    and e: "ends_number rest" and r: "lexer Top rest = Some r"
  shows "lexer Top (concat (map (\<lambda>y. CHR '','' # f y) xs) @ rest)
           = Some (concat (map (\<lambda>y. Comma # g y) xs) @ r)
         \<and> ends_number (concat (map (\<lambda>y. CHR '','' # f y) xs) @ rest)"
  using el
proof (induction xs)
  case Nil
  show ?case using e r by simp
next
  case (Cons x xs)
  let ?tail = "concat (map (\<lambda>y. CHR '','' # f y) xs) @ rest"
  have ih: "lexer Top ?tail = Some (concat (map (\<lambda>y. Comma # g y) xs) @ r)" "ends_number ?tail"
    using Cons.IH Cons.prems by simp_all
  have "lexer Top (f x @ ?tail) = Some (g x @ concat (map (\<lambda>y. Comma # g y) xs) @ r)"
    using Cons.prems [of x ?tail, OF _ ih(2) ih(1)] by simp
  then show ?case by (simp add: lex_punct)
qed

lemma lex_joined:
  assumes el: "\<And>x rest r. x \<in> set xs \<Longrightarrow> ends_number rest \<Longrightarrow> lexer Top rest = Some r
                 \<Longrightarrow> lexer Top (f x @ rest) = Some (g x @ r)"
    and e: "ends_number rest" and r: "lexer Top rest = Some r"
  shows "lexer Top (join_commas (map f xs) @ rest) = Some (sep_tokens (map g xs) @ r)"
proof (cases xs)
  case Nil
  then show ?thesis using r by simp
next
  case (Cons x xs')
  let ?tail = "concat (map (\<lambda>y. CHR '','' # f y) xs') @ rest"
  have t: "lexer Top ?tail = Some (concat (map (\<lambda>y. Comma # g y) xs') @ r)" "ends_number ?tail"
    using lex_tail [of xs' f g rest r] el e r Cons by simp_all
  have "lexer Top (f x @ ?tail) = Some (g x @ concat (map (\<lambda>y. Comma # g y) xs') @ r)"
    using el [of x ?tail, OF _ t(2) t(1)] Cons by simp
  then show ?thesis using Cons by (simp add: comp_def)
qed

text \<open>The lexer reads what \<open>JSON.stringify\<close> wrote as the tokens of the value.\<close>

lemma lex_value:
  "integral v \<Longrightarrow> ends_number rest \<Longrightarrow> lexer Top rest = Some r
     \<Longrightarrow> lexer Top (JSON_stringify v @ rest) = Some (tokens v @ r)"
proof (induction v arbitrary: rest r)
  case JNull
  then show ?case using lex_literals(1) [of rest] by simp
next
  case (JBool b)
  then show ?case using lex_literals(2,3) [of rest] by simp
next
  case (JNumber n)
  then show ?case using lex_int [of rest n] by simp
next
  case (JNumberLiteral t)
  then show ?case by simp
next
  case (JString s)
  then show ?case using lex_QuoteJSONString [of s rest] by simp
next
  case (JArray xs)
  have el: "lexer Top (JSON_stringify x @ rest) = Some (tokens x @ r)"
    if "x \<in> set xs" "ends_number rest" "lexer Top rest = Some r" for x rest r
  proof -
    have "integral x" using JArray.prems(1) that(1) by (simp add: list_all_iff)
    then show ?thesis using that by (intro JArray.IH)
  qed
  have c: "lexer Top (CHR '']'' # rest) = Some (RBracket # r)"
    using JArray.prems(3) by (simp add: lex_punct)
  have "lexer Top (join_commas (map JSON_stringify xs) @ CHR '']'' # rest)
          = Some (sep_tokens (map tokens xs) @ RBracket # r)"
    by (rule lex_joined [OF el _ c]) simp_all
  then show ?case by (simp add: lex_punct)
next
  case (JObject ms)
  let ?f = "\<lambda>(k, v). QuoteJSONString k @ CHR '':'' # JSON_stringify v"
  let ?g = "\<lambda>(k, v). Atom (JString k) # Colon # tokens v"
  have el: "lexer Top (?f m @ rest) = Some (?g m @ r)"
    if "m \<in> set ms" "ends_number rest" "lexer Top rest = Some r" for m rest r
  proof -
    obtain k v where m: "m = (k, v)" by (cases m)
    have iv: "integral v" using JObject.prems(1) that(1) m by (auto simp: list_all_iff)
    have sv: "v \<in> Basic_BNFs.snds m" by (simp add: m)
    have "lexer Top (JSON_stringify v @ rest) = Some (tokens v @ r)"
      by (rule JObject.IH [OF that(1) sv iv that(2) that(3)])
    then have "lexer Top (CHR '':'' # JSON_stringify v @ rest) = Some (Colon # tokens v @ r)"
      by (simp add: lex_punct)
    then have "lexer Top (QuoteJSONString k @ CHR '':'' # JSON_stringify v @ rest)
                 = Some (Atom (JString k) # Colon # tokens v @ r)"
      by (simp add: lex_QuoteJSONString)
    then show ?thesis by (simp add: m)
  qed
  have c: "lexer Top (CHR ''}'' # rest) = Some (RBrace # r)"
    using JObject.prems(3) by (simp add: lex_punct)
  have "lexer Top (join_commas (map ?f ms) @ CHR ''}'' # rest)
          = Some (sep_tokens (map ?g ms) @ RBrace # r)"
    by (rule lex_joined [OF el _ c]) simp_all
  then show ?case by (simp add: lex_punct)
qed

lemma parse_open:
  assumes "ph = PValue \<or> ph = PValueOrEnd"
  shows "parse_step (stack, ph) LBracket = Some (InArray [] # stack, PValueOrEnd)"
    and "parse_step (stack, ph) LBrace = Some (InObject [] None # stack, PKeyOrEnd)"
    and "parse_step (stack, ph) (Atom v) = complete v stack"
  using assms by (auto simp: parse_step_def)

lemma complete_in_array:
  "complete v (InArray acc # stack) = Some (InArray (acc @ [v]) # stack, PCommaOrEnd)"
  by (simp add: complete_def)

lemma complete_in_object:
  "complete v (InObject acc (Some k) # stack) = Some (InObject (acc @ [(k, v)]) None # stack, PCommaOrEnd)"
  by (simp add: complete_def)

lemma parse_array_tail:
  assumes el: "\<And>x stack ph rest s'. x \<in> set xs \<Longrightarrow> ph = PValue \<or> ph = PValueOrEnd
                 \<Longrightarrow> complete x stack = Some s'
                 \<Longrightarrow> parse_tokens (stack, ph) (tokens x @ rest) = parse_tokens s' rest"
    and c: "complete (JArray (acc @ xs)) stack = Some s'"
  shows "parse_tokens (InArray acc # stack, PCommaOrEnd)
           (concat (map (\<lambda>y. Comma # tokens y) xs) @ RBracket # rest) = parse_tokens s' rest"
  using el c
proof (induction xs arbitrary: acc)
  case Nil
  then show ?case by (simp add: parse_step_def)
next
  case (Cons x xs)
  have 1: "parse_step (InArray acc # stack, PCommaOrEnd) Comma = Some (InArray acc # stack, PValue)"
    by (simp add: parse_step_def)
  have 2: "parse_tokens (InArray acc # stack, PValue)
             (tokens x @ concat (map (\<lambda>y. Comma # tokens y) xs) @ RBracket # rest)
           = parse_tokens (InArray (acc @ [x]) # stack, PCommaOrEnd)
               (concat (map (\<lambda>y. Comma # tokens y) xs) @ RBracket # rest)"
    by (rule Cons.prems(1)) (simp_all add: complete_in_array)
  have 3: "parse_tokens (InArray (acc @ [x]) # stack, PCommaOrEnd)
             (concat (map (\<lambda>y. Comma # tokens y) xs) @ RBracket # rest) = parse_tokens s' rest"
    using Cons.prems by (intro Cons.IH) simp_all
  show ?case using 1 2 3 by simp
qed

lemma parse_object_tail:
  assumes el: "\<And>m v stack ph rest s'. m \<in> set ms \<Longrightarrow> v = snd m \<Longrightarrow> ph = PValue \<or> ph = PValueOrEnd
                 \<Longrightarrow> complete v stack = Some s'
                 \<Longrightarrow> parse_tokens (stack, ph) (tokens v @ rest) = parse_tokens s' rest"
    and c: "complete (JObject (acc @ ms)) stack = Some s'"
  shows "parse_tokens (InObject acc None # stack, PCommaOrEnd)
           (concat (map (\<lambda>y. Comma # (case y of (k, v) \<Rightarrow> Atom (JString k) # Colon # tokens v)) ms)
              @ RBrace # rest) = parse_tokens s' rest"
  using el c
proof (induction ms arbitrary: acc)
  case Nil
  then show ?case by (simp add: parse_step_def)
next
  case (Cons m ms)
  obtain k v where m: "m = (k, v)" by (cases m)
  let ?tail = "concat (map (\<lambda>y. Comma # (case y of (k, v) \<Rightarrow> Atom (JString k) # Colon # tokens v)) ms)
              @ RBrace # rest"
  have 1: "parse_step (InObject acc None # stack, PCommaOrEnd) Comma = Some (InObject acc None # stack, PKey)"
    by (simp add: parse_step_def)
  have 2: "parse_step (InObject acc None # stack, PKey) (Atom (JString k))
             = Some (InObject acc (Some k) # stack, PColon)"
    by (simp add: parse_step_def)
  have 3: "parse_step (InObject acc (Some k) # stack, PColon) Colon
             = Some (InObject acc (Some k) # stack, PValue)"
    by (simp add: parse_step_def)
  have 4: "parse_tokens (InObject acc (Some k) # stack, PValue) (tokens v @ ?tail)
           = parse_tokens (InObject (acc @ [(k, v)]) None # stack, PCommaOrEnd) ?tail"
    by (rule Cons.prems(1) [of m]) (simp_all add: complete_in_object m)
  have 5: "parse_tokens (InObject (acc @ [(k, v)]) None # stack, PCommaOrEnd) ?tail = parse_tokens s' rest"
    using Cons.prems m by (intro Cons.IH) simp_all
  show ?case using 1 2 3 4 5 by (simp add: m)
qed

text \<open>The parser builds the value back from its tokens.\<close>

lemma parse_value:
  "ph = PValue \<or> ph = PValueOrEnd \<Longrightarrow> complete v stack = Some s'
     \<Longrightarrow> parse_tokens (stack, ph) (tokens v @ rest) = parse_tokens s' rest"
proof (induction v arbitrary: stack ph rest s')
  case (JArray xs)
  have el: "parse_tokens (stack, ph) (tokens x @ rest) = parse_tokens s' rest"
    if "x \<in> set xs" "ph = PValue \<or> ph = PValueOrEnd" "complete x stack = Some s'"
    for x stack ph rest s'
    using that by (intro JArray.IH)
  show ?case
  proof (cases xs)
    case Nil
    with JArray.prems show ?thesis by (auto simp: parse_step_def)
  next
    case (Cons x xs')
    have 1: "parse_step (stack, ph) LBracket = Some (InArray [] # stack, PValueOrEnd)"
      using JArray.prems(1) by (rule parse_open)
    have 2: "parse_tokens (InArray [] # stack, PValueOrEnd)
               (tokens x @ concat (map (\<lambda>y. Comma # tokens y) xs') @ RBracket # rest)
             = parse_tokens (InArray ([] @ [x]) # stack, PCommaOrEnd)
                 (concat (map (\<lambda>y. Comma # tokens y) xs') @ RBracket # rest)"
      by (rule el) (simp_all add: Cons complete_in_array)
    have 3: "parse_tokens (InArray ([] @ [x]) # stack, PCommaOrEnd)
               (concat (map (\<lambda>y. Comma # tokens y) xs') @ RBracket # rest) = parse_tokens s' rest"
      using JArray.prems(2) Cons by (intro parse_array_tail el) simp_all
    show ?thesis using 1 2 3 by (simp add: Cons comp_def)
  qed
next
  case (JObject ms)
  have el: "parse_tokens (stack, ph) (tokens v @ rest) = parse_tokens s' rest"
    if "m \<in> set ms" "v = snd m" "ph = PValue \<or> ph = PValueOrEnd" "complete v stack = Some s'"
    for m v stack ph rest s'
  proof -
    have "v \<in> Basic_BNFs.snds m" using that(2) by (cases m) simp
    then show ?thesis using that by (intro JObject.IH [of m v])
  qed
  show ?case
  proof (cases ms)
    case Nil
    with JObject.prems show ?thesis by (auto simp: parse_step_def)
  next
    case (Cons m ms')
    obtain k v where m: "m = (k, v)" by (cases m)
    let ?tail = "concat (map (\<lambda>y. Comma # (case y of (k, v) \<Rightarrow> Atom (JString k) # Colon # tokens v)) ms')
              @ RBrace # rest"
    have 1: "parse_step (stack, ph) LBrace = Some (InObject [] None # stack, PKeyOrEnd)"
      using JObject.prems(1) by (rule parse_open)
    have 2: "parse_step (InObject [] None # stack, PKeyOrEnd) (Atom (JString k))
               = Some (InObject [] (Some k) # stack, PColon)"
      by (simp add: parse_step_def)
    have 3: "parse_step (InObject [] (Some k) # stack, PColon) Colon
               = Some (InObject [] (Some k) # stack, PValue)"
      by (simp add: parse_step_def)
    have 4: "parse_tokens (InObject [] (Some k) # stack, PValue) (tokens v @ ?tail)
             = parse_tokens (InObject ([] @ [(k, v)]) None # stack, PCommaOrEnd) ?tail"
      by (rule el [of m]) (simp_all add: Cons m complete_in_object)
    have 5: "parse_tokens (InObject ([] @ [(k, v)]) None # stack, PCommaOrEnd) ?tail
               = parse_tokens s' rest"
      using JObject.prems(2) Cons m by (intro parse_object_tail el) simp_all
    show ?thesis using 1 2 3 4 5 by (simp add: Cons m comp_def)
  qed
qed (simp_all add: parse_open)

theorem JSON_parse_stringify:
  "integral v \<Longrightarrow> JSON_parse (JSON_stringify v) = Some v"
proof -
  assume "integral v"
  then have "lexer Top (JSON_stringify v @ []) = Some (tokens v @ [])"
    by (intro lex_value) (simp_all add: lex_end_def)
  moreover have "parse_tokens ([], PValue) (tokens v @ []) = parse_tokens ([], PDone v) []"
    by (rule parse_value) (simp_all add: complete_def)
  ultimately show ?thesis by (simp add: JSON_parse_def)
qed


section \<open>Properties of the payment header and of the signed payload\<close>

lemma integral_payload_json: "integral (payload_json p)"
  by (simp add: payload_json_def)

lemma parse_encode: "integral v \<Longrightarrow> parsePaymentHeader (encodePaymentHeader v) = Inr v"
  by (simp add: parsePaymentHeader_def encodePaymentHeader_def from_base64_toString_base64
      JSON_parse_stringify)

lemma decode_encode: "integral v \<Longrightarrow> decodePaymentHeader (encodePaymentHeader v) = Inr v"
  by (simp add: decodePaymentHeader_def encodePaymentHeader_def from_base64_toString_base64
      JSON_parse_stringify)

text \<open>The object of a payload determines the payload.\<close>

lemma payload_json_inject: "payload_json q = payload_json p \<Longrightarrow> q = p"
  by (cases p, cases q, cases "cp_payload p", cases "cp_payload q") (simp add: payload_json_def)

lemma asset_of_payload_json:
  "payload_asset (payload_json p) = Some (JString (pp_asset (cp_payload p)))"
  by (simp add: payload_asset_def payload_json_def property_def)

text \<open>\<open>createPaymentHeader\<close> encodes its payload as \<open>encodePaymentHeader\<close> does.\<close>

lemma createPaymentHeader_encodes:
  "createPaymentHeader wallet requirements net nonce now
     = map_option (\<lambda>p. encodePaymentHeader (payload_json p))
         (createPaymentPayload wallet requirements net nonce now)"
  by (simp add: createPaymentHeader_def encodePaymentHeader_def)

lemma BigInt_1000: "BigInt ''1000'' = Some 1000"
  by code_simp

lemma example_payload_created:
  "createPaymentPayload example_wallet (example_requirements 300) testnet ''0x01'' 1700000000123
     = Some example_payload"
  by (simp add: createPaymentPayload_def example_requirements_def example_wallet_def
      example_payload_def BigInt_1000 Let_def X402_VERSION_def TIMEOUTS_PAYMENT_VALIDITY_def)

text \<open>
  C4. A header that was encoded decodes to the payload it was made from: for every
  payload, \<open>parsePaymentHeader\<close> and \<open>decodePaymentHeader\<close> give back the object that
  \<open>encodePaymentHeader\<close> was given, and that object determines the payload; the header that
  \<open>createPaymentHeader\<close> returns decodes to the payload it signed. For a valid payload (one
  that \<open>validatePaymentPayload\<close> accepts), the encoded header, base64-decoded and parsed as
  JSON, has a \<open>payload.asset\<close> that is a string and not empty. The numbers of a payload
  (the version and the two timestamps) are integers.
\<close>

theorem payment_header_round_trip:
  "parsePaymentHeader (encodePaymentHeader (payload_json p)) = Inr (payload_json p)
   \<and> decodePaymentHeader (encodePaymentHeader (payload_json p)) = Inr (payload_json p)
   \<and> (\<forall>q. payload_json q = payload_json p \<longrightarrow> q = p)
   \<and> (createPaymentPayload wallet requirements net nonce now = Some p \<longrightarrow>
        map_option decodePaymentHeader (createPaymentHeader wallet requirements net nonce now)
          = Some (Inr (payload_json p)))
   \<and> (validatePaymentPayload p \<longrightarrow>
        (\<exists>v a. JSON_parse (from_base64 (encodePaymentHeader (payload_json p))) = Some v
           \<and> payload_asset v = Some (JString a) \<and> a \<noteq> []))"
proof (intro conjI impI allI)
  show "parsePaymentHeader (encodePaymentHeader (payload_json p)) = Inr (payload_json p)"
    by (rule parse_encode [OF integral_payload_json])
  show d: "decodePaymentHeader (encodePaymentHeader (payload_json p)) = Inr (payload_json p)"
    by (rule decode_encode [OF integral_payload_json])
  show "q = p" if "payload_json q = payload_json p" for q
    using that by (rule payload_json_inject)
  show "map_option decodePaymentHeader (createPaymentHeader wallet requirements net nonce now)
          = Some (Inr (payload_json p))"
    if "createPaymentPayload wallet requirements net nonce now = Some p"
    using that d by (simp add: createPaymentHeader_encodes)
  show "\<exists>v a. JSON_parse (from_base64 (encodePaymentHeader (payload_json p))) = Some v
           \<and> payload_asset v = Some (JString a) \<and> a \<noteq> []"
    if "validatePaymentPayload p"
  proof (intro exI conjI)
    show "JSON_parse (from_base64 (encodePaymentHeader (payload_json p))) = Some (payload_json p)"
      by (simp add: encodePaymentHeader_def from_base64_toString_base64
          JSON_parse_stringify [OF integral_payload_json])
    show "payload_asset (payload_json p) = Some (JString (pp_asset (cp_payload p)))"
      by (rule asset_of_payload_json)
    from that show "pp_asset (cp_payload p) \<noteq> []"
      by (auto simp: validatePaymentPayload_def split: if_splits)
  qed
qed

theorem payment_header_round_trip_witness:
  "validatePaymentPayload example_payload
   \<and> createPaymentPayload example_wallet (example_requirements 300) testnet ''0x01'' 1700000000123
       = Some example_payload
   \<and> parsePaymentHeader (encodePaymentHeader (payload_json example_payload))
       = Inr (payload_json example_payload)
   \<and> map_option decodePaymentHeader
        (createPaymentHeader example_wallet (example_requirements 300) testnet ''0x01'' 1700000000123)
       = Some (Inr (payload_json example_payload))
   \<and> (\<exists>v a. JSON_parse (from_base64 (encodePaymentHeader (payload_json example_payload))) = Some v
         \<and> payload_asset v = Some (JString a) \<and> a \<noteq> [])"
proof -
  have v: "validatePaymentPayload example_payload"
    by (simp add: validatePaymentPayload_def example_payload_def X402_VERSION_def)
  note c = example_payload_created
  note t = payment_header_round_trip [of example_payload example_wallet "example_requirements 300"
      testnet "''0x01''" 1700000000123]
  note t1 = t [THEN conjunct1]
  note t4 = t [THEN conjunct2, THEN conjunct2, THEN conjunct2, THEN conjunct1, rule_format, OF c]
  note t5 = t [THEN conjunct2, THEN conjunct2, THEN conjunct2, THEN conjunct2, rule_format, OF v]
  from v c t1 t4 t5 show ?thesis by (intro conjI)
qed

text \<open>
  Characters that are not of the base64 alphabet, and are not the padding character, are
  skipped by the decoder.
\<close>

lemma from_base64_skips:
  assumes "unbase64 c = None" and "c \<noteq> CHR ''=''"
  shows "from_base64 (h1 @ c # h2) = from_base64 (h1 @ h2)"
proof -
  have "List.map_filter unbase64 (takeWhile (\<lambda>c. c \<noteq> CHR ''='') (h1 @ c # h2))
          = List.map_filter unbase64 (takeWhile (\<lambda>c. c \<noteq> CHR ''='') (h1 @ h2))"
    using assms by (induction h1) (auto simp: List.map_filter_simps split: option.splits)
  then show ?thesis by (simp add: from_base64_def)
qed

text \<open>
  The claim of C6 as it is written fails: a header that is not valid base64 is not
  rejected. The decoder skips the \<open>!\<close>, and what is left decodes to \<open>{}\<close>.
\<close>

theorem malformed_header_counterexample:
  "\<not> valid_base64 ''!e30='' \<and> parsePaymentHeader ''!e30='' = Inr (JObject [])"
  by code_simp

text \<open>
  C6, amended. \<open>parsePaymentHeader\<close> either returns the parsed value or throws the one error
  \<open>Invalid payment header format\<close>, and nothing else. It throws exactly when the bytes that
  the decoder gives are not a JSON text; for a header that is the base64 of a text, exactly
  when that text is not JSON. It does not check that the header is base64: a character
  outside the alphabet is skipped, and the header is read as if it were not there.
\<close>

theorem parsePaymentHeader_fails_iff_not_JSON:
  "(parsePaymentHeader h = Inl (Error ''Invalid payment header format'')
      \<longleftrightarrow> JSON_parse (from_base64 h) = None)
   \<and> (\<forall>e. parsePaymentHeader h = Inl e \<longrightarrow> e = Error ''Invalid payment header format'')
   \<and> (parsePaymentHeader (toString_base64 t) = Inl (Error ''Invalid payment header format'')
      \<longleftrightarrow> JSON_parse t = None)
   \<and> (unbase64 c = None \<and> c \<noteq> CHR ''='' \<longrightarrow>
        parsePaymentHeader (h1 @ c # h2) = parsePaymentHeader (h1 @ h2))"
proof (intro conjI allI impI)
  show "parsePaymentHeader h = Inl (Error ''Invalid payment header format'')
          \<longleftrightarrow> JSON_parse (from_base64 h) = None"
    by (simp add: parsePaymentHeader_def split: option.splits)
  show "e = Error ''Invalid payment header format''" if "parsePaymentHeader h = Inl e" for e
    using that by (simp add: parsePaymentHeader_def split: option.splits)
  show "parsePaymentHeader (toString_base64 t) = Inl (Error ''Invalid payment header format'')
          \<longleftrightarrow> JSON_parse t = None"
    by (simp add: parsePaymentHeader_def from_base64_toString_base64 split: option.splits)
  show "parsePaymentHeader (h1 @ c # h2) = parsePaymentHeader (h1 @ h2)"
    if "unbase64 c = None \<and> c \<noteq> CHR ''=''"
    using that by (simp add: parsePaymentHeader_def from_base64_skips)
qed

theorem parsePaymentHeader_fails_iff_not_JSON_witness:
  "JSON_parse (from_base64 ''eA=='') = None
   \<and> parsePaymentHeader ''eA=='' = Inl (Error ''Invalid payment header format'')
   \<and> unbase64 CHR ''!'' = None
   \<and> parsePaymentHeader ''!e30='' = parsePaymentHeader ''e30=''"
proof -
  have a: "JSON_parse (from_base64 ''eA=='') = None" by code_simp
  have b: "unbase64 CHR ''!'' = None \<and> CHR ''!'' \<noteq> CHR ''=''" by code_simp
  note t = parsePaymentHeader_fails_iff_not_JSON [of "''eA==''" _ "CHR ''!''" "[]" "''e30=''"]
  from t [THEN conjunct1] a
  have c: "parsePaymentHeader ''eA=='' = Inl (Error ''Invalid payment header format'')"
    by (simp only: simp_thms)
  from t [THEN conjunct2, THEN conjunct2, THEN conjunct2, rule_format, OF b]
  have d: "parsePaymentHeader ''!e30='' = parsePaymentHeader ''e30=''"
    by (simp only: append_Nil)
  from a c b [THEN conjunct1] d show ?thesis by (intro conjI)
qed

text \<open>
  \<open>decodePaymentHeader\<close> of the payment package has no handler around \<open>JSON.parse\<close>: for the
  base64 of \<open>x\<close> its caller gets the SyntaxError itself.
\<close>

lemma decodePaymentHeader_raises: "decodePaymentHeader ''eA=='' = Inl SyntaxError"
  by code_simp

text \<open>The end of the validity window that each of the two signing functions sets.\<close>

lemma createPaymentPayload_validBefore:
  "map_option (\<lambda>p. pp_validBefore (cp_payload p))
     (createPaymentPayload wallet requirements net nonce now)
     = map_option (\<lambda>amount. now div 1000 + 300) (BigInt (pr_maxAmountRequired requirements))"
  by (simp add: createPaymentPayload_def Let_def TIMEOUTS_PAYMENT_VALIDITY_def split: option.splits)

lemma MCPClient_payload_validBefore:
  "map_option (\<lambda>p. pp_validBefore (cp_payload p))
     (MCPClient_payload net wallet requirements nonce now)
     = map_option (\<lambda>amount. now div 1000 + pr_maxTimeoutSeconds requirements)
         (BigInt (pr_maxAmountRequired requirements))"
  by (simp add: MCPClient_payload_def calculateValidBefore_def Let_def split: option.splits)

text \<open>
  C9. \<open>createPaymentHeader\<close> of the payment package does not read \<open>maxTimeoutSeconds\<close>: it
  ends the validity window 300 seconds (\<open>TIMEOUTS.PAYMENT_VALIDITY\<close>) after the signing
  time. For requirements with \<open>maxTimeoutSeconds = 600\<close>, signed at 1700000000123 ms, the
  payload has \<open>validBefore = 1700000300\<close> where the signing time plus \<open>maxTimeoutSeconds\<close> is
  1700000600; \<open>MCPClient.createPaymentHeader\<close>, which uses \<open>calculateValidBefore\<close>, gives
  1700000600 for the same requirements.
\<close>

theorem createPaymentHeader_validBefore_ignores_maxTimeoutSeconds:
  "pr_maxTimeoutSeconds (example_requirements 600) = 600
   \<and> map_option (\<lambda>p. pp_validBefore (cp_payload p))
        (createPaymentPayload example_wallet (example_requirements 600) testnet ''0x01'' 1700000000123)
       = Some 1700000300
   \<and> map_option (\<lambda>p. pp_validBefore (cp_payload p))
        (MCPClient_payload testnet example_wallet (example_requirements 600) ''0x01'' 1700000000123)
       = Some 1700000600
   \<and> calculateValidBefore 1700000000123 (pr_maxTimeoutSeconds (example_requirements 600))
       = 1700000600"
proof -
  have m: "pr_maxTimeoutSeconds (example_requirements 600) = 600"
    and a: "BigInt (pr_maxAmountRequired (example_requirements 600)) = Some 1000"
    by (simp_all add: example_requirements_def BigInt_1000)
  have x: "map_option (\<lambda>p. pp_validBefore (cp_payload p))
        (createPaymentPayload example_wallet (example_requirements 600) testnet ''0x01'' 1700000000123)
       = Some 1700000300"
    by (simp add: createPaymentPayload_validBefore a)
  have y: "map_option (\<lambda>p. pp_validBefore (cp_payload p))
        (MCPClient_payload testnet example_wallet (example_requirements 600) ''0x01'' 1700000000123)
       = Some 1700000600"
    by (simp add: MCPClient_payload_validBefore a m)
  have z: "calculateValidBefore 1700000000123 (pr_maxTimeoutSeconds (example_requirements 600))
       = 1700000600"
    by (simp add: calculateValidBefore_def m)
  from m x y z show ?thesis by (intro conjI)
qed

end
